theory Spec2Isabelle
  imports Complex_Main "HOL-Library.Log_Nat" "HOL-Library.Product_Lexorder" "HOL-Library.Multiset"
begin

text \<open>
  The routes of the cocktail server (\<^verbatim>\<open>Website/server.js\<close>): rating submission, the
  average rating of a cocktail, the cocktail of a mood and the top-rated cocktail of the
  month and of the week. Each route is a function of its request, of
  the two tables and of what the server cannot decide itself: a fault of the storage
  engine, the random draws and the order of ties of the engine, the clock, and the
  answers of the recipe API.
\<close>

section \<open>JSON values and HTTP responses\<close>

text \<open>
  The values that \<^verbatim>\<open>JSON.parse\<close> yields, which are also the values handed to
  \<^verbatim>\<open>res.json\<close>. A number is the double it was parsed to: \<open>JNum x\<close> for the finite
  double \<open>x\<close>, \<open>JInf True\<close> and \<open>JInf False\<close> for \<^verbatim>\<open>Infinity\<close> and \<^verbatim>\<open>-Infinity\<close>, which
  are what a numeral beyond the range of doubles parses to. A string is the list of the
  bytes of its UTF-8 encoding (a lone surrogate being encoded like any other code point).
  An object is the list of its members.
\<close>

datatype json =
  JNull
  | JBool bool
  | JNum rat
  | JInf bool
  | JStr string
  | JArr "json list"
  | JObj "(string \<times> json) list"

text \<open>
  The server answers with \<^verbatim>\<open>res.json(v)\<close> (status 200),
  \<^verbatim>\<open>res.status(c).send(text)\<close> or \<^verbatim>\<open>res.status(c).json(v)\<close>.
  A response is its status code and its payload: a JSON value, a text, or no body at all.
\<close>

datatype payload = Json json | Text string | Empty

record response =
  status :: nat
  payload :: payload

text \<open>
  \<^verbatim>\<open>res.json\<close> writes the text of \<^verbatim>\<open>JSON.stringify\<close>, in which an infinite number is
  \<^verbatim>\<open>null\<close>; \<open>stringify v\<close> is the value this text denotes. For \<^verbatim>\<open>undefined\<close> there is
  no text, and the response has no body.
\<close>

fun stringify :: "json \<Rightarrow> json" where
  "stringify JNull = JNull"
  | "stringify (JBool b) = JBool b"
  | "stringify (JNum x) = JNum x"
  | "stringify (JInf b) = JNull"
  | "stringify (JStr s) = JStr s"
  | "stringify (JArr xs) = JArr (map stringify xs)"
  | "stringify (JObj kvs) = JObj (map (\<lambda>kv. (fst kv, stringify (snd kv))) kvs)"


definition res_json :: "json \<Rightarrow> response" where
  "res_json v = \<lparr>status = 200, payload = Json (stringify v)\<rparr>"

definition res_json_undefined :: response where
  "res_json_undefined = \<lparr>status = 200, payload = Empty\<rparr>"

definition res_status_json :: "nat \<Rightarrow> json \<Rightarrow> response" where
  "res_status_json c v = \<lparr>status = c, payload = Json (stringify v)\<rparr>"

definition res_status_send :: "nat \<Rightarrow> string \<Rightarrow> response" where
  "res_status_send c s = \<lparr>status = c, payload = Text s\<rparr>"

text \<open>
  The own member \<open>k\<close> of a parsed object; for a repeated key the last binding wins. Other
  values have no own member of a name.
\<close>

definition member :: "string \<Rightarrow> json \<Rightarrow> json option" where
  "member k v = (case v of JObj kvs \<Rightarrow> map_of (rev kvs) k | _ \<Rightarrow> None)"

section \<open>Decimal numerals\<close>

definition digit_char :: "nat \<Rightarrow> char" where
  "digit_char d = char_of (48 + d)"

fun show_nat :: "nat \<Rightarrow> string" where
  "show_nat n = (if n < 10 then [digit_char n] else show_nat (n div 10) @ [digit_char (n mod 10)])"

declare show_nat.simps [simp del]

definition show_int :: "int \<Rightarrow> string" where
  "show_int i = (if i < 0 then CHR ''-'' # show_nat (nat (- i)) else show_nat (nat i))"

definition read_nat :: "string \<Rightarrow> nat" where
  "read_nat s = foldl (\<lambda>a c. 10 * a + (of_char c - 48)) 0 s"

text \<open>\<^verbatim>\<open>String.prototype.padStart(n, '0')\<close>.\<close>

definition padStart :: "nat \<Rightarrow> string \<Rightarrow> string" where
  "padStart n s = replicate (n - length s) CHR ''0'' @ s"

section \<open>IEEE 754 doubles\<close>

text \<open>
  A finite double is modelled by the rational number it denotes. \<open>to_double\<close> rounds a
  rational to the nearest number with a 53-bit significand, ties to the even significand
  (the rounding of every IEEE operation). The exponent is not bounded: overflow to
  infinity and gradual underflow (magnitudes outside about 1e-308 .. 1e308) are not
  modelled.
\<close>

definition round_half_even :: "rat \<Rightarrow> int" where
  "round_half_even y =
     (let f = \<lfloor>y\<rfloor>; r = y - of_int f in
      if r < 1 / 2 then f
      else if 1 / 2 < r then f + 1
      else if even f then f else f + 1)"

text \<open>\<open>floor_log2 x\<close> is the exponent \<open>e\<close> with \<open>2^e \<le> x < 2^(e+1)\<close>, for \<open>x > 0\<close>.\<close>

definition floor_log2 :: "rat \<Rightarrow> int" where
  "floor_log2 x =
     (if 1 \<le> x then int (floorlog 2 (nat \<lfloor>x\<rfloor>)) - 1
      else - int (floorlog 2 (nat (\<lceil>1 / x\<rceil> - 1))))"

definition ulp :: "rat \<Rightarrow> rat" where
  "ulp x = 2 powi (floor_log2 \<bar>x\<bar> - 52)"

definition to_double :: "rat \<Rightarrow> rat" where
  "to_double x =
     (if x = 0 then 0
      else sgn x * of_int (round_half_even (\<bar>x\<bar> / ulp x)) * ulp x)"

section \<open>Number.prototype.toFixed and Number::toString\<close>

text \<open>
  \<^verbatim>\<open>Number::toString\<close> for a double \<open>x \<ge> 10^21\<close>, to which \<^verbatim>\<open>toFixed\<close> hands such
  values over: the shortest digit string \<open>s\<close> (\<open>k\<close> digits, \<open>k\<close> minimal) with
  \<open>s * 10^(n-k)\<close> rounding to \<open>x\<close>, the closest such \<open>s\<close> if there are several, written
  in exponent notation.
\<close>

definition shortest_candidates :: "rat \<Rightarrow> nat \<Rightarrow> nat \<Rightarrow> (nat \<times> nat) list" where
  "shortest_candidates x k n =
     (let q = x / 10 ^ (n - k) in
      map (\<lambda>s. (s, n))
        (filter (\<lambda>s. 10 ^ (k - 1) \<le> s \<and> s < 10 ^ k \<and> to_double (of_nat s * 10 ^ (n - k)) = x)
          (remdups [nat \<lfloor>q\<rfloor>, nat \<lceil>q\<rceil>])))"

definition closest_candidate :: "rat \<Rightarrow> nat \<Rightarrow> (nat \<times> nat) list \<Rightarrow> nat \<times> nat" where
  "closest_candidate x k cs =
     hd (sort_key (\<lambda>(s, n). (\<bar>of_nat s * 10 ^ (n - k) - x\<bar>, s mod 2)) cs)"

definition shortest_digits :: "rat \<Rightarrow> nat \<times> nat \<times> nat" where
  "shortest_digits x =
     (let N = length (show_nat (nat \<lfloor>x\<rfloor>));
          found = filter (\<lambda>(k, cs). cs \<noteq> [])
                    (map (\<lambda>k. (k, shortest_candidates x k N @ shortest_candidates x k (N + 1)))
                       [1 ..< 18])
      in case found of
           [] \<Rightarrow> (N, 17, nat \<lfloor>x / 10 ^ (N - 17)\<rfloor>)
         | (k, cs) # _ \<Rightarrow> (let (s, n) = closest_candidate x k cs in (n, k, s)))"

definition number_to_string_large :: "rat \<Rightarrow> string" where
  "number_to_string_large x =
     (let (n, k, s) = shortest_digits x; ds = show_nat s; e = show_nat (n - 1) in
      if k = 1 then ds @ ''e+'' @ e
      else take 1 ds @ ''.'' @ drop 1 ds @ ''e+'' @ e)"

text \<open>
  \<^verbatim>\<open>x.toFixed(f)\<close>: the integer \<open>n\<close> with \<open>n / 10^f\<close> closest to \<open>x\<close> (the larger one
  of two), printed with \<open>f\<close> digits after the point.
\<close>

definition insert_point :: "nat \<Rightarrow> string \<Rightarrow> string" where
  "insert_point f m =
     (if f = 0 then m
      else let m' = padStart (f + 1) m; k = length m' in
           take (k - f) m' @ ''.'' @ drop (k - f) m')"

definition toFixed :: "nat \<Rightarrow> rat \<Rightarrow> string" where
  "toFixed f x =
     (let s = (if x < 0 then ''-'' else ''''); y = \<bar>x\<bar> in
      if 10 ^ 21 \<le> y then s @ number_to_string_large y
      else s @ insert_point f (show_nat (nat (round (y * 10 ^ f)))))"

section \<open>The rating store\<close>

text \<open>
  Modelled from the spec: the schema of \<^verbatim>\<open>db/cocktails.db\<close> is not part of the sources.
  The columns are typed as in the data model: \<^verbatim>\<open>CocktailRatings(cocktail_id, rating,
  rated_date)\<close> with a string identifier, an integer rating and a calendar date (kept as
  its day number, days since 1970-01-01), and \<^verbatim>\<open>Moods(ID, Mood)\<close>. No column is NULL.
\<close>

record rating_row =
  cocktail_id :: string
  rating :: int
  rated_date :: int

record mood_row =
  ID :: string
  Mood :: string

record db =
  CocktailRatings :: "rating_row list"
  Moods :: "mood_row list"

text \<open>
  \<^verbatim>\<open>db.get\<close> and \<^verbatim>\<open>db.run\<close> call back with \<^verbatim>\<open>(err, row)\<close>. Whether the storage engine
  fails is not determined by the tables; it is the input \<open>fault\<close> of every route.
\<close>

definition db_get :: "string option \<Rightarrow> 'row option \<Rightarrow> string + 'row option" where
  "db_get fault row = (case fault of Some e \<Rightarrow> Inl e | None \<Rightarrow> Inr row)"

subsection \<open>POST /submit-rating\<close>

text \<open>The request body \<^verbatim>\<open>{id, rating, date}\<close>.\<close>

record rating_request =
  req_id :: string
  req_rating :: int
  req_date :: int

definition db_run_insert :: "string option \<Rightarrow> db \<Rightarrow> rating_row \<Rightarrow> string option \<times> db" where
  "db_run_insert fault d r =
     (case fault of
        Some e \<Rightarrow> (Some e, d)
      | None \<Rightarrow> (None, d\<lparr>CocktailRatings := CocktailRatings d @ [r]\<rparr>))"

definition submit_rating :: "string option \<Rightarrow> db \<Rightarrow> rating_request \<Rightarrow> response \<times> db" where
  "submit_rating fault d req =
     (let (err, d') = db_run_insert fault d
                        \<lparr>cocktail_id = req_id req, rating = req_rating req,
                           rated_date = req_date req\<rparr>
      in case err of
           Some e \<Rightarrow> (res_status_send 500 ''Error saving the rating'', d')
         | None \<Rightarrow> (res_json (JObj [(''message'', JStr ''Rating submitted successfully'')]), d'))"

subsection \<open>GET /average-rating/:cocktailId\<close>

text \<open>
  \<^verbatim>\<open>SELECT AVG(rating) as avgRating, COUNT(rated_date) as ratingCount FROM
  CocktailRatings WHERE cocktail_id = ?\<close>.
  \<^verbatim>\<open>AVG\<close> is NULL over no rows; otherwise SQLite divides the sum by the count in double
  arithmetic, \<^verbatim>\<open>(double)sum / (double)count\<close>. \<^verbatim>\<open>COUNT(rated_date)\<close> counts the rows
  whose date is not NULL, which are all the rows. An aggregate query without
  \<^verbatim>\<open>GROUP BY\<close> always yields one row.
\<close>

text \<open>The exact arithmetic mean of a list of ratings.\<close>

definition mean :: "int list \<Rightarrow> rat" where
  "mean xs = of_int (sum_list xs) / of_nat (length xs)"

text \<open>The numeral of \<open>k / 100\<close> with two digits after the point.\<close>

definition two_decimals :: "nat \<Rightarrow> string" where
  "two_decimals k =
     show_nat (k div 100) @ ''.'' @ [digit_char (k div 10 mod 10), digit_char (k mod 10)]"

definition avg_double :: "int list \<Rightarrow> rat" where
  "avg_double xs = to_double (to_double (of_int (sum_list xs)) / to_double (of_nat (length xs)))"

definition sql_avg :: "int list \<Rightarrow> rat option" where
  "sql_avg xs = (if xs = [] then None else Some (avg_double xs))"

record avg_row =
  avgRating :: "rat option"
  ratingCount :: nat

definition ratings_of :: "db \<Rightarrow> string \<Rightarrow> rating_row list" where
  "ratings_of d cocktailId = filter (\<lambda>r. cocktail_id r = cocktailId) (CocktailRatings d)"

definition average_rating_query :: "db \<Rightarrow> string \<Rightarrow> avg_row option" where
  "average_rating_query d cocktailId =
     (let rows = ratings_of d cocktailId in
      Some \<lparr>avgRating = sql_avg (map rating rows), ratingCount = length rows\<rparr>)"

text \<open>
  \<^verbatim>\<open>row && row.avgRating ? row.avgRating.toFixed(2) : 'Not rated'\<close>: a missing row, a
  NULL average and the number zero are all falsy.
\<close>

definition averageRating_text :: "avg_row option \<Rightarrow> string" where
  "averageRating_text row =
     (case row of
        None \<Rightarrow> ''Not rated''
      | Some r \<Rightarrow>
          (case avgRating r of
             None \<Rightarrow> ''Not rated''
           | Some a \<Rightarrow> if a \<noteq> 0 then toFixed 2 a else ''Not rated''))"

definition aggregate_json :: "avg_row option \<Rightarrow> json" where
  "aggregate_json row =
     JObj [(''averageRating'', JStr (averageRating_text row)),
           (''ratingCount'',
              (case row of Some r \<Rightarrow> JNum (of_nat (ratingCount r)) | None \<Rightarrow> JNum 0))]"

definition average_rating_callback :: "string + avg_row option \<Rightarrow> response" where
  "average_rating_callback res =
     (case res of
        Inl e \<Rightarrow> res_status_json 500 (JObj [(''error'', JStr ''Error fetching average rating'')])
      | Inr row \<Rightarrow> res_json (aggregate_json row))"

definition average_rating :: "string option \<Rightarrow> db \<Rightarrow> string \<Rightarrow> response" where
  "average_rating fault d cocktailId =
     average_rating_callback (db_get fault (average_rating_query d cocktailId))"

section \<open>Values in conditions and comparisons\<close>

text \<open>
  The recipe routes test \<^verbatim>\<open>data.drinks && data.drinks.length > 0\<close> on a parsed value and
  answer with \<^verbatim>\<open>data.drinks[0]\<close>. These are the ECMAScript operations involved, on the
  values that \<^verbatim>\<open>JSON.parse\<close> yields.
\<close>

text \<open>\<^verbatim>\<open>ToBoolean\<close>: null, false, zero and the empty string are falsy.\<close>

definition truthy :: "json \<Rightarrow> bool" where
  "truthy v =
     (case v of
        JNull \<Rightarrow> False
      | JBool b \<Rightarrow> b
      | JNum x \<Rightarrow> x \<noteq> 0
      | JInf b \<Rightarrow> True
      | JStr s \<Rightarrow> s \<noteq> []
      | JArr xs \<Rightarrow> True
      | JObj kvs \<Rightarrow> True)"

text \<open>
  The length of a string counts UTF-16 code units: one for every character, two for a
  character beyond the basic plane (four bytes in UTF-8, the first from 240 on). Bytes
  from 128 to 191 continue a character.
\<close>

definition utf16_length :: "string \<Rightarrow> nat" where
  "utf16_length s =
     length (filter (\<lambda>c. \<not> (128 \<le> (of_char c :: nat) \<and> (of_char c :: nat) < 192)) s) +
     length (filter (\<lambda>c. 240 \<le> (of_char c :: nat)) s)"

text \<open>
  The first code unit of a non-empty string, as a string: its first character, or the
  high surrogate of a first character beyond the basic plane.
\<close>

definition first_code_unit :: "string \<Rightarrow> string" where
  "first_code_unit s =
     (case map of_char (take 4 s) :: nat list of
        [b0, b1, b2, b3] \<Rightarrow>
          if b0 < 192 then take 1 s
          else if b0 < 224 then take 2 s
          else if b0 < 240 then take 3 s
          else (let cp = (b0 mod 8) * 262144 + (b1 mod 64) * 4096 + (b2 mod 64) * 64 + b3 mod 64;
                    h = (cp - 65536) div 1024
                in map char_of [237, 160 + h div 64, 128 + h mod 64])
      | [b0, b1, b2] \<Rightarrow> if b0 < 192 then take 1 s else if b0 < 224 then take 2 s else s
      | [b0, b1] \<Rightarrow> if b0 < 192 then take 1 s else s
      | _ \<Rightarrow> s)"

text \<open>
  \<^verbatim>\<open>v.length\<close> and \<^verbatim>\<open>v[0]\<close> for a value \<open>v\<close> other than null; \<open>None\<close> is
  \<^verbatim>\<open>undefined\<close>. An array and a string have a length and elements, an object has what its
  members \<^verbatim>\<open>length\<close> and \<^verbatim>\<open>0\<close> hold, a number and a boolean have neither.
\<close>

definition get_length :: "json \<Rightarrow> json option" where
  "get_length v =
     (case v of
        JStr s \<Rightarrow> Some (JNum (of_nat (utf16_length s)))
      | JArr xs \<Rightarrow> Some (JNum (of_nat (length xs)))
      | JObj kvs \<Rightarrow> member ''length'' v
      | _ \<Rightarrow> None)"

definition get_index0 :: "json \<Rightarrow> json option" where
  "get_index0 v =
     (case v of
        JStr s \<Rightarrow> (if s = [] then None else Some (JStr (first_code_unit s)))
      | JArr xs \<Rightarrow> (case xs of [] \<Rightarrow> None | x # _ \<Rightarrow> Some x)
      | JObj kvs \<Rightarrow> member ''0'' v
      | _ \<Rightarrow> None)"

subsection \<open>The number a string denotes\<close>

text \<open>
  \<^verbatim>\<open>StringToNumber\<close>, as far as \<^verbatim>\<open>x > 0\<close> needs it: whether the number that a string
  denotes is positive. White space and line terminators around the numeral are dropped;
  these are their UTF-8 encodings (U+0009 to U+000D, U+0020, U+00A0, U+1680, U+2000 to
  U+200A, U+2028, U+2029, U+202F, U+205F, U+3000, U+FEFF).
\<close>

definition white_space :: "string list" where
  "white_space =
     map (map char_of)
       [[9], [10], [11], [12], [13], [32], [194, 160], [225, 154, 128],
        [226, 128, 128], [226, 128, 129], [226, 128, 130], [226, 128, 131], [226, 128, 132],
        [226, 128, 133], [226, 128, 134], [226, 128, 135], [226, 128, 136], [226, 128, 137],
        [226, 128, 138], [226, 128, 168], [226, 128, 169], [226, 128, 175], [226, 129, 159],
        [227, 128, 128], [239, 187, 191 :: nat]]"

text \<open>\<open>trim ws s\<close> drops from the front of \<open>s\<close> every leading occurrence of a member of \<open>ws\<close>.\<close>

function trim :: "string list \<Rightarrow> string \<Rightarrow> string" where
  "trim ws s =
     (case find (\<lambda>w. w \<noteq> [] \<and> take (length w) s = w) ws of
        None \<Rightarrow> s
      | Some w \<Rightarrow> trim ws (drop (length w) s))"
  by pat_completeness auto

termination
proof (relation "measure (\<lambda>(ws, s). length s)")
  show "wf (measure (\<lambda>(ws, s). length s))" by simp
next
  fix ws :: "string list" and s w :: string
  assume "find (\<lambda>w. w \<noteq> [] \<and> take (length w) s = w) ws = Some w"
  then have w: "w \<noteq> []" and t: "take (length w) s = w"
    by (auto simp: find_Some_iff)
  from w t have "s \<noteq> []" by auto
  with w show "((ws, drop (length w) s), (ws, s)) \<in> measure (\<lambda>(ws, s). length s)"
    by simp
qed

declare trim.simps [simp del]

definition trim_both :: "string \<Rightarrow> string" where
  "trim_both s = rev (trim (map rev white_space) (rev (trim white_space s)))"

definition is_digit :: "char \<Rightarrow> bool" where
  "is_digit c \<longleftrightarrow> 48 \<le> (of_char c :: nat) \<and> (of_char c :: nat) \<le> 57"

text \<open>
  A binary, octal or hexadecimal integer after its prefix: digits of the radix, at least
  one; its value is positive if one of them is not 0.
\<close>

definition radix_positive :: "string \<Rightarrow> string \<Rightarrow> bool" where
  "radix_positive allowed ds \<longleftrightarrow>
     ds \<noteq> [] \<and> (\<forall>c \<in> set ds. c \<in> set allowed) \<and> (\<exists>c \<in> set ds. c \<noteq> CHR ''0'')"

text \<open>
  The exponent part of a decimal numeral: nothing, or \<^verbatim>\<open>e\<close> or \<^verbatim>\<open>E\<close>, an optional sign
  and digits. \<open>None\<close> if the text is neither.
\<close>

definition exponent :: "string \<Rightarrow> int option" where
  "exponent s =
     (case s of
        [] \<Rightarrow> Some 0
      | c # r \<Rightarrow>
          if c = CHR ''e'' \<or> c = CHR ''E'' then
            (let neg = (take 1 r = ''-'');
                 ds = (if take 1 r = ''-'' \<or> take 1 r = ''+'' then drop 1 r else r)
             in if ds \<noteq> [] \<and> (\<forall>c \<in> set ds. is_digit c)
                then Some (if neg then - int (read_nat ds) else int (read_nat ds))
                else None)
          else None)"

text \<open>
  An unsigned decimal numeral: \<^verbatim>\<open>Infinity\<close>, or digits with an optional point and an
  optional exponent, a digit at least before or after the point. Its value
  \<open>m * 10^(e - f)\<close>, for the digits \<open>m\<close>, \<open>f\<close> of them after the point, and the exponent
  \<open>e\<close>, is rounded to a double, which is positive if the value is above \<open>2^-1075\<close>, half
  the least positive double.
\<close>

definition decimal_positive :: "string \<Rightarrow> bool" where
  "decimal_positive u =
     (if u = ''Infinity'' then True
      else
        (let ip = takeWhile is_digit u;
             r1 = dropWhile is_digit u;
             fp = (if take 1 r1 = ''.'' then takeWhile is_digit (drop 1 r1) else []);
             r2 = (if take 1 r1 = ''.'' then dropWhile is_digit (drop 1 r1) else r1)
         in (ip \<noteq> [] \<or> fp \<noteq> []) \<and>
            (case exponent r2 of
               None \<Rightarrow> False
             | Some e \<Rightarrow>
                 2 powi (- 1075) <
                   rat_of_nat (read_nat (ip @ fp)) * 10 powi (e - int (length fp)))))"

definition string_positive :: "string \<Rightarrow> bool" where
  "string_positive s =
     (let t = trim_both s in
      if take 1 t = ''-'' then False
      else if take 1 t = ''+'' then decimal_positive (drop 1 t)
      else if take 2 t = ''0x'' \<or> take 2 t = ''0X''
        then radix_positive ''0123456789abcdefABCDEF'' (drop 2 t)
      else if take 2 t = ''0o'' \<or> take 2 t = ''0O'' then radix_positive ''01234567'' (drop 2 t)
      else if take 2 t = ''0b'' \<or> take 2 t = ''0B'' then radix_positive ''01'' (drop 2 t)
      else decimal_positive t)"

subsection \<open>The comparison with zero\<close>

text \<open>
  \<^verbatim>\<open>x > 0\<close> turns \<open>x\<close> into a primitive value and that into a number. An object becomes
  the text \<^verbatim>\<open>[object Object]\<close> and an array the texts of its elements joined by commas,
  null giving the empty text. Both go through the method \<^verbatim>\<open>toString\<close>: an object that
  has a member of this name has no such method, and the conversion throws a
  \<^verbatim>\<open>TypeError\<close>, also when it is an element of the array.
\<close>

fun to_primitive_throws :: "json \<Rightarrow> bool" where
  "to_primitive_throws (JObj kvs) = (''toString'' \<in> set (map fst kvs))"
  | "to_primitive_throws (JArr xs) = (\<exists>x \<in> set xs. to_primitive_throws x)"
  | "to_primitive_throws JNull = False"
  | "to_primitive_throws (JBool b) = False"
  | "to_primitive_throws (JNum x) = False"
  | "to_primitive_throws (JInf b) = False"
  | "to_primitive_throws (JStr s) = False"

text \<open>
  Whether the text of a value, as an element of an array has it, denotes a positive
  number. The text of a number denotes that number; the texts of a boolean and of an
  object denote no number, nor does a text with a comma in it, the text of an array of
  two elements or more; the empty text denotes zero.
\<close>

fun text_positive :: "json \<Rightarrow> bool" where
  "text_positive (JNum x) = (0 < x)"
  | "text_positive (JInf b) = b"
  | "text_positive (JStr s) = string_positive s"
  | "text_positive (JArr xs) = (case xs of [x] \<Rightarrow> text_positive x | _ \<Rightarrow> False)"
  | "text_positive JNull = False"
  | "text_positive (JBool b) = False"
  | "text_positive (JObj kvs) = False"

text \<open>\<^verbatim>\<open>ToNumber\<close> of the primitive value is positive: true is 1, false and null are 0.\<close>

definition number_positive :: "json \<Rightarrow> bool" where
  "number_positive v = (case v of JBool b \<Rightarrow> b | _ \<Rightarrow> text_positive v)"

text \<open>\<^verbatim>\<open>x > 0\<close> for \<open>x\<close> a value or \<^verbatim>\<open>undefined\<close>; \<open>None\<close> if a \<^verbatim>\<open>TypeError\<close> is thrown.\<close>

definition greater_zero :: "json option \<Rightarrow> bool option" where
  "greater_zero x =
     (case x of
        None \<Rightarrow> Some False
      | Some v \<Rightarrow> if to_primitive_throws v then None else Some (number_positive v))"

section \<open>The external recipe API\<close>

text \<open>
  Modelled from the spec: the recipe API is an external service. The outcome of
  \<^verbatim>\<open>fetch(apiURL).then(response => response.json())\<close> is an input of the routes: the
  request fails, the body is not JSON (both reject the promise), or the body is parsed
  to a value, which may be any value.
\<close>

datatype upstream = NetworkError | InvalidJson | Parsed json

definition lookup_url :: "string \<Rightarrow> string" where
  "lookup_url i = ''https://www.thecocktaildb.com/api/json/v1/1/lookup.php?i='' @ i"

text \<open>
  The handler of the parsed value, shared by the three recipe routes:
  \<^verbatim>\<open>if (data.drinks && data.drinks.length > 0) res.json(data.drinks[0]) else
  res.status(404).send('Cocktail not found')\<close>. Reading a member of null throws a
  \<^verbatim>\<open>TypeError\<close>; \<open>None\<close> is a handler that throws.
\<close>

definition drinks_handler :: "json \<Rightarrow> response option" where
  "drinks_handler data =
     (if data = JNull then None
      else
        (case member ''drinks'' data of
           None \<Rightarrow> Some (res_status_send 404 ''Cocktail not found'')
         | Some drinks \<Rightarrow>
             if \<not> truthy drinks then Some (res_status_send 404 ''Cocktail not found'')
             else
               (case greater_zero (get_length drinks) of
                  None \<Rightarrow> None
                | Some positive \<Rightarrow>
                    if positive
                    then Some (case get_index0 drinks of
                                 Some x \<Rightarrow> res_json x
                               | None \<Rightarrow> res_json_undefined)
                    else Some (res_status_send 404 ''Cocktail not found''))))"

text \<open>
  The promise chain: a rejection of \<^verbatim>\<open>fetch\<close> or of \<^verbatim>\<open>response.json()\<close> and an
  exception of the handler are caught and give 500.
\<close>

definition hydrate :: "upstream \<Rightarrow> response" where
  "hydrate r =
     (case r of
        NetworkError \<Rightarrow> res_status_send 500 ''Error fetching from the API''
      | InvalidJson \<Rightarrow> res_status_send 500 ''Error fetching from the API''
      | Parsed data \<Rightarrow>
          (case drinks_handler data of
             None \<Rightarrow> res_status_send 500 ''Error fetching from the API''
           | Some answer \<Rightarrow> answer))"

section \<open>GET /cocktail-by-mood\<close>

text \<open>
  \<^verbatim>\<open>SELECT ID FROM Moods WHERE Mood = ? ORDER BY RANDOM() LIMIT 1\<close>. The \<open>i\<close>-th
  matching row is ordered by the draw \<open>random i\<close>; the draws are an input.
\<close>

definition moods_query :: "(nat \<Rightarrow> int) \<Rightarrow> db \<Rightarrow> string \<Rightarrow> string option" where
  "moods_query random d mood =
     (let rows = filter (\<lambda>m. Mood m = mood) (Moods d);
          ordered = sort_key fst (zip (map random [0 ..< length rows]) rows)
      in case ordered of [] \<Rightarrow> None | (k, row) # _ \<Rightarrow> Some (ID row))"

definition cocktail_by_mood ::
  "string option \<Rightarrow> (nat \<Rightarrow> int) \<Rightarrow> (string \<Rightarrow> upstream) \<Rightarrow> db \<Rightarrow> string \<Rightarrow> response" where
  "cocktail_by_mood fault random api d mood =
     (case db_get fault (moods_query random d mood) of
        Inl e \<Rightarrow> res_status_send 500 ''Error fetching from the database''
      | Inr (Some i) \<Rightarrow> hydrate (api (lookup_url i))
      | Inr None \<Rightarrow> res_status_send 404 ''No cocktails found for this mood'')"

section \<open>Calendar dates\<close>

text \<open>
  The day and time functions of the ECMAScript \<^verbatim>\<open>Date\<close> object (proleptic Gregorian
  calendar, days counted from 1970-01-01, a Thursday).
\<close>

definition msPerDay :: int where
  "msPerDay = 86400000"

definition Day :: "int \<Rightarrow> int" where
  "Day t = t div msPerDay"

definition TimeWithinDay :: "int \<Rightarrow> int" where
  "TimeWithinDay t = t mod msPerDay"

definition DayFromYear :: "int \<Rightarrow> int" where
  "DayFromYear y =
     365 * (y - 1970) + (y - 1969) div 4 - (y - 1901) div 100 + (y - 1601) div 400"

definition InLeapYear :: "int \<Rightarrow> int" where
  "InLeapYear y = (if (y mod 4 = 0 \<and> y mod 100 \<noteq> 0) \<or> y mod 400 = 0 then 1 else 0)"

text \<open>
  The largest year whose first day is not after day \<open>d\<close>, found next to the estimate
  \<open>d / 365.2425\<close>.
\<close>

definition YearFromDay :: "int \<Rightarrow> int" where
  "YearFromDay d =
     (let g = 1970 + (d * 400) div 146097 in
      if DayFromYear (g + 1) \<le> d then g + 1
      else if DayFromYear g \<le> d then g
      else g - 1)"

definition DayWithinYear :: "int \<Rightarrow> int" where
  "DayWithinYear d = d - DayFromYear (YearFromDay d)"

text \<open>The day within the year on which month \<open>m\<close> (0 .. 11) starts.\<close>

definition month_start :: "int \<Rightarrow> int \<Rightarrow> int" where
  "month_start m leap =
     (if m = 0 then 0 else if m = 1 then 31
      else [59, 90, 120, 151, 181, 212, 243, 273, 304, 334] ! nat (m - 2) + leap)"

definition MonthFromDay :: "int \<Rightarrow> int" where
  "MonthFromDay d =
     (let w = DayWithinYear d; leap = InLeapYear (YearFromDay d) in
      if w < 31 then 0
      else if w < 59 + leap then 1
      else if w < 90 + leap then 2
      else if w < 120 + leap then 3
      else if w < 151 + leap then 4
      else if w < 181 + leap then 5
      else if w < 212 + leap then 6
      else if w < 243 + leap then 7
      else if w < 273 + leap then 8
      else if w < 304 + leap then 9
      else if w < 334 + leap then 10
      else 11)"

definition DateFromDay :: "int \<Rightarrow> int" where
  "DateFromDay d =
     DayWithinYear d - month_start (MonthFromDay d) (InLeapYear (YearFromDay d)) + 1"

definition WeekDay :: "int \<Rightarrow> int" where
  "WeekDay d = (d + 4) mod 7"

definition MakeDay :: "int \<Rightarrow> int \<Rightarrow> int \<Rightarrow> int" where
  "MakeDay year month dt =
     (let ym = year + month div 12; mn = month mod 12 in
      DayFromYear ym + month_start mn (InLeapYear ym) + dt - 1)"

definition MakeDate :: "int \<Rightarrow> int \<Rightarrow> int" where
  "MakeDate day time = day * msPerDay + time"

text \<open>
  A \<^verbatim>\<open>Date\<close> object holds a time value \<open>t\<close>, milliseconds since the epoch in UTC; its
  \<^verbatim>\<open>get\<close> and \<^verbatim>\<open>set\<close> methods work on local time. The time zone of the server is an
  input, the function \<^verbatim>\<open>LocalTZA(t, isUTC)\<close> of ECMAScript: \<open>tza t True\<close> is the offset in
  force at the instant \<open>t\<close>, and \<open>tza t False\<close> the offset in force when the local clock
  shows \<open>t\<close>. Time values stay in the range of valid dates.
\<close>

type_synonym zone = "int \<Rightarrow> bool \<Rightarrow> int"

definition LocalTime :: "zone \<Rightarrow> int \<Rightarrow> int" where
  "LocalTime tza t = t + tza t True"

definition UTC :: "zone \<Rightarrow> int \<Rightarrow> int" where
  "UTC tza t = t - tza t False"

definition getFullYear :: "zone \<Rightarrow> int \<Rightarrow> int" where
  "getFullYear tza t = YearFromDay (Day (LocalTime tza t))"

definition getMonth :: "zone \<Rightarrow> int \<Rightarrow> int" where
  "getMonth tza t = MonthFromDay (Day (LocalTime tza t))"

definition getDate :: "zone \<Rightarrow> int \<Rightarrow> int" where
  "getDate tza t = DateFromDay (Day (LocalTime tza t))"

definition getDay :: "zone \<Rightarrow> int \<Rightarrow> int" where
  "getDay tza t = WeekDay (Day (LocalTime tza t))"

text \<open>
  \<^verbatim>\<open>setDate(dt)\<close> replaces the day of the month in local time and turns the local time
  it gets into an instant by the offset in force at that local time.
\<close>

definition setDate :: "zone \<Rightarrow> int \<Rightarrow> int \<Rightarrow> int" where
  "setDate tza t dt =
     (let lt = LocalTime tza t in
      UTC tza (MakeDate (MakeDay (YearFromDay (Day lt)) (MonthFromDay (Day lt)) dt)
                 (TimeWithinDay lt)))"

text \<open>A zone whose offset never changes; \<open>fixed_zone 0\<close> is UTC.\<close>

definition fixed_zone :: "int \<Rightarrow> zone" where
  "fixed_zone off t isUTC = off"

text \<open>
  Central European time around the change to summer time of 2024-03-31, 01:00 UTC, when
  the local clock goes from 02:00 to 03:00 and the offset from one hour to two.
\<close>

definition central_european_2024 :: zone where
  "central_european_2024 t isUTC =
     (if isUTC then (if t < 1711846800000 then 3600000 else 7200000)
      else (if t < 1711854000000 then 3600000 else 7200000))"

section \<open>GET /top-rated-cocktail\<close>

text \<open>
  \<^verbatim>\<open>strftime('%m', rated_date)\<close> and \<^verbatim>\<open>strftime('%Y', rated_date)\<close>: two and four
  digits; NULL for a date outside the years 0000 .. 9999.
\<close>

definition strftime_m :: "int \<Rightarrow> string option" where
  "strftime_m d =
     (if 0 \<le> YearFromDay d \<and> YearFromDay d \<le> 9999
      then Some (padStart 2 (show_nat (nat (MonthFromDay d + 1)))) else None)"

definition strftime_Y :: "int \<Rightarrow> string option" where
  "strftime_Y d =
     (if 0 \<le> YearFromDay d \<and> YearFromDay d \<le> 9999
      then Some (padStart 4 (show_nat (nat (YearFromDay d)))) else None)"

text \<open>
  \<^verbatim>\<open>SELECT cocktail_id, AVG(rating) as avgRating FROM CocktailRatings
  WHERE strftime('%m', rated_date) = $1 AND strftime('%Y', rated_date) = $2
  GROUP BY cocktail_id ORDER BY avgRating DESC LIMIT 1\<close>.
  SQL leaves the order of rows with equal \<^verbatim>\<open>avgRating\<close> open; the engine's choice is
  the input \<open>tie\<close>, a rank on the groups.
\<close>

definition in_period :: "string \<Rightarrow> string \<Rightarrow> rating_row \<Rightarrow> bool" where
  "in_period p1 p2 r \<longleftrightarrow>
     strftime_m (rated_date r) = Some p1 \<and> strftime_Y (rated_date r) = Some p2"

text \<open>A rating falls in the month \<open>m\<close> (0 .. 11) of the year \<open>y\<close>.\<close>

definition in_month :: "int \<Rightarrow> int \<Rightarrow> rating_row \<Rightarrow> bool" where
  "in_month y m r \<longleftrightarrow> YearFromDay (rated_date r) = y \<and> MonthFromDay (rated_date r) = m"

definition group_avg :: "rating_row list \<Rightarrow> string \<Rightarrow> rat" where
  "group_avg rows c = avg_double (map rating (filter (\<lambda>r. cocktail_id r = c) rows))"

definition top_rated_query ::
  "(string \<Rightarrow> nat) \<Rightarrow> db \<Rightarrow> string \<Rightarrow> string \<Rightarrow> (string \<times> rat) option" where
  "top_rated_query tie d p1 p2 =
     (let rows = filter (in_period p1 p2) (CocktailRatings d);
          groups = map (\<lambda>c. (c, group_avg rows c)) (remdups (map cocktail_id rows));
          ordered = sort_key (\<lambda>(c, a). (- a, tie c)) groups
      in case ordered of [] \<Rightarrow> None | g # _ \<Rightarrow> Some g)"

definition top_rated_cocktail ::
  "string option \<Rightarrow> (string \<Rightarrow> nat) \<Rightarrow> (string \<Rightarrow> upstream) \<Rightarrow> zone \<Rightarrow> int \<Rightarrow> db \<Rightarrow> response"
  where
  "top_rated_cocktail fault tie api tza now d =
     (let currentMonth = getMonth tza now + 1;
          currentYear = getFullYear tza now
      in case db_get fault
                (top_rated_query tie d (padStart 2 (show_int currentMonth)) (show_int currentYear))
         of
           Inl e \<Rightarrow>
             res_status_send 500 ''Error fetching the top-rated cocktail for the current month''
         | Inr (Some (c, a)) \<Rightarrow> hydrate (api (lookup_url c))
         | Inr None \<Rightarrow>
             res_status_send 404 ''No top-rated cocktails found for the current month'')"

text \<open>The ratings of cocktail \<open>c\<close> dated in month \<open>m\<close> of year \<open>y\<close>.\<close>

definition month_ratings :: "db \<Rightarrow> int \<Rightarrow> int \<Rightarrow> string \<Rightarrow> int list" where
  "month_ratings d y m c =
     map rating (filter (\<lambda>r. cocktail_id r = c \<and> in_month y m r) (CocktailRatings d))"

section \<open>GET /top-rated-cocktail-week\<close>

text \<open>
  \<^verbatim>\<open>firstDayOfWeek = new Date(now.setDate(now.getDate() - now.getDay() +
  (now.getDay() === 0 ? -6 : 1)))\<close> and \<^verbatim>\<open>lastDayOfWeek\<close>, the copy of it moved on by
  \<^verbatim>\<open>setDate(firstDayOfWeek.getDate() + 6)\<close>.
\<close>

definition firstDayOfWeek :: "zone \<Rightarrow> int \<Rightarrow> int" where
  "firstDayOfWeek tza now =
     setDate tza now
       (getDate tza now - getDay tza now + (if getDay tza now = 0 then - 6 else 1))"

definition lastDayOfWeek :: "zone \<Rightarrow> int \<Rightarrow> int" where
  "lastDayOfWeek tza now =
     (let first = firstDayOfWeek tza now in setDate tza first (getDate tza first + 6))"

text \<open>
  \<^verbatim>\<open>toISOString().split('T')[0]\<close> is the date of the instant in UTC, whatever the zone of
  the server. Dates are kept as day numbers, as in the store.
\<close>

definition toISOString_date :: "int \<Rightarrow> int" where
  "toISOString_date t = Day t"

text \<open>\<^verbatim>\<open>date(?)\<close> of SQLite: the date itself; NULL outside the years 0000 .. 9999.\<close>

definition sql_date :: "int \<Rightarrow> int option" where
  "sql_date d = (if 0 \<le> YearFromDay d \<and> YearFromDay d \<le> 9999 then Some d else None)"

text \<open>
  \<^verbatim>\<open>rated_date BETWEEN date(?) AND date(?)\<close>: both bounds included; a comparison with
  NULL selects no row.
\<close>

definition in_week :: "int \<Rightarrow> int \<Rightarrow> rating_row \<Rightarrow> bool" where
  "in_week p1 p2 r \<longleftrightarrow>
     (case (sql_date p1, sql_date (rated_date r), sql_date p2) of
        (Some lo, Some x, Some hi) \<Rightarrow> lo \<le> x \<and> x \<le> hi
      | _ \<Rightarrow> False)"

text \<open>
  \<^verbatim>\<open>SELECT cocktail_id, AVG(rating) as avgRating FROM CocktailRatings
  WHERE rated_date BETWEEN date(?) AND date(?)
  GROUP BY cocktail_id ORDER BY avgRating DESC LIMIT 1\<close>.
\<close>

definition top_rated_week_query ::
  "(string \<Rightarrow> nat) \<Rightarrow> db \<Rightarrow> int \<Rightarrow> int \<Rightarrow> (string \<times> rat) option" where
  "top_rated_week_query tie d p1 p2 =
     (let rows = filter (in_week p1 p2) (CocktailRatings d);
          groups = map (\<lambda>c. (c, group_avg rows c)) (remdups (map cocktail_id rows));
          ordered = sort_key (\<lambda>(c, a). (- a, tie c)) groups
      in case ordered of [] \<Rightarrow> None | g # _ \<Rightarrow> Some g)"

definition top_rated_cocktail_week ::
  "string option \<Rightarrow> (string \<Rightarrow> nat) \<Rightarrow> (string \<Rightarrow> upstream) \<Rightarrow> zone \<Rightarrow> int \<Rightarrow> db \<Rightarrow> response"
  where
  "top_rated_cocktail_week fault tie api tza now d =
     (case db_get fault
             (top_rated_week_query tie d (toISOString_date (firstDayOfWeek tza now))
                (toISOString_date (lastDayOfWeek tza now)))
      of
        Inl e \<Rightarrow>
          res_status_send 500 ''Error fetching the top-rated cocktail for the current week''
      | Inr (Some (c, a)) \<Rightarrow> hydrate (api (lookup_url c))
      | Inr None \<Rightarrow>
          res_status_send 404 ''No top-rated cocktails found for the current week'')"

section \<open>Example data\<close>

text \<open>
  Two ratings of one cocktail and one of another in March 2024 (days 19783 and 19784 are
  2024-03-01 and 2024-03-02), two moods, and an API that knows the first cocktail.
\<close>

definition example_db :: db where
  "example_db =
     \<lparr>CocktailRatings =
        [\<lparr>cocktail_id = ''11007'', rating = 5, rated_date = 19783\<rparr>,
         \<lparr>cocktail_id = ''11007'', rating = 3, rated_date = 19784\<rparr>,
         \<lparr>cocktail_id = ''11000'', rating = 4, rated_date = 19783\<rparr>],
      Moods = [\<lparr>ID = ''11007'', Mood = ''happy''\<rparr>, \<lparr>ID = ''11000'', Mood = ''relaxed''\<rparr>]\<rparr>"

definition margarita :: json where
  "margarita = JObj [(''idDrink'', JStr ''11007''), (''strDrink'', JStr ''Margarita'')]"

definition example_api :: "string \<Rightarrow> upstream" where
  "example_api url =
     (if url = lookup_url ''11007'' then Parsed (JObj [(''drinks'', JArr [margarita])])
      else Parsed (JObj [(''drinks'', JNull)]))"

text \<open>
  A store for March 2024 in which the averages differ: cocktail 11000 has 4 and 5,
  cocktail 11007 has 5 and 3, and cocktail 17222 has a 5 of 2024-02-17 only.
\<close>

definition march_db :: db where
  "march_db =
     \<lparr>CocktailRatings =
        [\<lparr>cocktail_id = ''11007'', rating = 5, rated_date = 19783\<rparr>,
         \<lparr>cocktail_id = ''17222'', rating = 5, rated_date = 19770\<rparr>,
         \<lparr>cocktail_id = ''11007'', rating = 3, rated_date = 19784\<rparr>,
         \<lparr>cocktail_id = ''11000'', rating = 4, rated_date = 19783\<rparr>,
         \<lparr>cocktail_id = ''11000'', rating = 5, rated_date = 19784\<rparr>],
      Moods = []\<rparr>"

text \<open>
  A store for the last week of 2020: one rating of Monday 2020-12-28 (day 18624), and
  the same store with one more rating, of Monday 2021-01-04 (day 18631).
\<close>

definition week_db :: db where
  "week_db =
     \<lparr>CocktailRatings = [\<lparr>cocktail_id = ''11007'', rating = 5, rated_date = 18624\<rparr>],
      Moods = []\<rparr>"

definition next_week_db :: db where
  "next_week_db =
     \<lparr>CocktailRatings =
        [\<lparr>cocktail_id = ''11007'', rating = 5, rated_date = 18624\<rparr>,
         \<lparr>cocktail_id = ''11000'', rating = 4, rated_date = 18631\<rparr>],
      Moods = []\<rparr>"

section \<open>Rounding to a double\<close>

lemma round_half_even_error: "\<bar>of_int (round_half_even y) - y\<bar> \<le> 1 / 2"
proof -
  have "of_int \<lfloor>y\<rfloor> \<le> y" "y < of_int \<lfloor>y\<rfloor> + 1" by linarith+
  then show ?thesis
    by (auto simp: round_half_even_def Let_def)
qed

lemma round_half_even_of_int [simp]: "round_half_even (of_int k) = k"
  by (simp add: round_half_even_def)

lemma floor_log2_bounds:
  assumes "0 < x"
  shows "2 powi floor_log2 x \<le> x" and "x < 2 powi (floor_log2 x + 1)"
proof -
  have "2 powi floor_log2 x \<le> x \<and> x < 2 powi (floor_log2 x + 1)"
  proof (cases "1 \<le> x")
    case True
    define n where "n = nat \<lfloor>x\<rfloor>"
    define L where "L = floorlog 2 n"
    have n: "0 < n" using True by (simp add: n_def)
    have b: "2 ^ (L - 1) \<le> n" "n < 2 ^ L"
      using floorlog_bounds [of n 2] n by (simp_all add: L_def)
    have "L \<noteq> 0" unfolding L_def floorlog_eq_zero_iff using n by simp
    then have L: "0 < L" by simp
    have fl: "floor_log2 x = int L - 1"
      using True by (simp add: floor_log2_def n_def L_def)
    have nx: "rat_of_nat n \<le> x" "x < rat_of_nat n + 1"
      using True unfolding n_def by (simp_all add: of_nat_nat) linarith+
    have "(2::rat) ^ (L - 1) \<le> of_nat n"
    proof -
      have "rat_of_nat (2 ^ (L - 1)) \<le> rat_of_nat n" using b(1) by (simp only: of_nat_le_iff)
      then show ?thesis by simp
    qed
    moreover have "rat_of_nat n + 1 \<le> 2 ^ L"
    proof -
      have "Suc n \<le> 2 ^ L" using b(2) by simp
      then have "rat_of_nat (Suc n) \<le> rat_of_nat (2 ^ L)" by (simp only: of_nat_le_iff)
      then show ?thesis by simp
    qed
    moreover have "(2::rat) powi (int L - 1) = 2 ^ (L - 1)"
      using L by (simp add: power_int_def nat_diff_distrib')
    moreover have "(2::rat) powi (int L - 1 + 1) = 2 ^ L" by simp
    ultimately show ?thesis using nx unfolding fl by linarith
  next
    case False
    define c where "c = \<lceil>1 / x\<rceil>"
    define n where "n = nat (c - 1)"
    define L where "L = floorlog 2 n"
    have y: "1 < 1 / x" using False assms by simp
    have c: "2 \<le> c" using y unfolding c_def by linarith
    have n: "0 < n" using c by (simp add: n_def)
    have b: "2 ^ (L - 1) \<le> n" "n < 2 ^ L"
      using floorlog_bounds [of n 2] n by (simp_all add: L_def)
    have "L \<noteq> 0" unfolding L_def floorlog_eq_zero_iff using n by simp
    then have L: "0 < L" by simp
    have fl: "floor_log2 x = - int L"
      using False by (simp add: floor_log2_def n_def L_def c_def)
    have cy: "1 / x \<le> of_int c" "of_int c - 1 < 1 / x"
      unfolding c_def by linarith+
    have nc: "rat_of_nat n = of_int c - 1" using c by (simp add: n_def)
    have 1: "(2::rat) ^ (L - 1) \<le> of_nat n"
    proof -
      have "rat_of_nat (2 ^ (L - 1)) \<le> rat_of_nat n" using b(1) by (simp only: of_nat_le_iff)
      then show ?thesis by simp
    qed
    have 2: "rat_of_nat n + 1 \<le> 2 ^ L"
    proof -
      have "Suc n \<le> 2 ^ L" using b(2) by simp
      then have "rat_of_nat (Suc n) \<le> rat_of_nat (2 ^ L)" by (simp only: of_nat_le_iff)
      then show ?thesis by simp
    qed
    have up: "1 / x \<le> 2 ^ L" using 2 cy nc by linarith
    have lo: "2 ^ (L - 1) < 1 / x" using 1 cy nc by linarith
    have "1 / 2 ^ L \<le> x"
      using up assms by (simp add: field_simps)
    moreover have "x < 1 / 2 ^ (L - 1)"
      using lo assms by (simp add: field_simps)
    moreover have "(2::rat) powi (- int L) = 1 / 2 ^ L"
      by (simp add: power_int_minus_divide)
    moreover have "(2::rat) powi (- int L + 1) = 1 / 2 ^ (L - 1)"
    proof -
      have "- int L + 1 = - int (L - 1)" using L by simp
      then show ?thesis by (simp only: power_int_minus_divide power_int_of_nat)
    qed
    ultimately show ?thesis unfolding fl by simp
  qed
  then show "2 powi floor_log2 x \<le> x" and "x < 2 powi (floor_log2 x + 1)" by simp_all
qed

lemma ulp_pos [simp]: "0 < ulp x"
  by (simp add: ulp_def)

lemma to_double_error: "\<bar>to_double x - x\<bar> \<le> ulp x / 2"
proof (cases "x = 0")
  case True
  then show ?thesis by (simp add: to_double_def less_imp_le)
next
  case False
  define m where "m = round_half_even (\<bar>x\<bar> / ulp x)"
  have e: "\<bar>of_int m - \<bar>x\<bar> / ulp x\<bar> \<le> 1 / 2"
    unfolding m_def by (rule round_half_even_error)
  have u0: "ulp x \<noteq> 0" by (simp add: ulp_def)
  have "of_int m * ulp x - \<bar>x\<bar> = (of_int m - \<bar>x\<bar> / ulp x) * ulp x"
    using u0 by (simp add: left_diff_distrib)
  then have "\<bar>of_int m * ulp x - \<bar>x\<bar>\<bar> = \<bar>of_int m - \<bar>x\<bar> / ulp x\<bar> * ulp x"
    using ulp_pos [of x] by (simp add: abs_mult less_imp_le)
  also have "\<dots> \<le> 1 / 2 * ulp x"
    using e by (intro mult_right_mono) (simp_all add: less_imp_le)
  finally have a: "\<bar>of_int m * ulp x - \<bar>x\<bar>\<bar> \<le> ulp x / 2" by simp
  have "to_double x - x = sgn x * (of_int m * ulp x - \<bar>x\<bar>)"
    using False by (simp add: to_double_def m_def right_diff_distrib mult.assoc flip: mult_sgn_abs)
  then have "\<bar>to_double x - x\<bar> = \<bar>of_int m * ulp x - \<bar>x\<bar>\<bar>"
    using False by (simp add: abs_mult abs_sgn_eq)
  with a show ?thesis by simp
qed

lemma to_double_of_int:
  assumes "\<bar>i\<bar> < 2 ^ 53"
  shows "to_double (of_int i) = of_int i"
proof (cases "i = 0")
  case True
  then show ?thesis by (simp add: to_double_def)
next
  case False
  define a :: rat where "a = of_int \<bar>i\<bar>"
  define E where "E = floor_log2 a"
  have a1: "1 \<le> a" using False by (simp add: a_def flip: of_int_abs)
  have a2: "a < 2 ^ 53"
    using assms unfolding a_def by (metis of_int_less_iff of_int_numeral of_int_power)
  have b: "2 powi E \<le> a" "a < 2 powi (E + 1)"
    using floor_log2_bounds [of a] a1 by (simp_all add: E_def)
  have "(2::rat) powi E < 2 powi 53" using b(1) a2 by simp
  then have E53: "E < 53" by (rule power_int_le_imp_less_exp [rotated]) simp_all
  define k where "k = nat (52 - E)"
  have u: "ulp (of_int i) = 1 / 2 ^ k"
  proof -
    have "E - 52 = - int k" using E53 by (simp add: k_def)
    then show ?thesis
      by (simp add: ulp_def a_def E_def power_int_minus_divide flip: of_int_abs)
  qed
  have "\<bar>rat_of_int i\<bar> / ulp (of_int i) = of_int (\<bar>i\<bar> * 2 ^ k)"
    by (simp add: u)
  then have "round_half_even (\<bar>rat_of_int i\<bar> / ulp (of_int i)) = \<bar>i\<bar> * 2 ^ k"
    by (simp only: round_half_even_of_int)
  then have "to_double (of_int i) = sgn (rat_of_int i) * of_int (\<bar>i\<bar> * 2 ^ k) * (1 / 2 ^ k)"
    using False by (simp add: to_double_def u)
  also have "\<dots> = sgn (rat_of_int i) * \<bar>rat_of_int i\<bar>" by simp
  also have "\<dots> = of_int i" by (simp add: mult_sgn_abs)
  finally show ?thesis .
qed

section \<open>Averages of small ratings\<close>

lemma sum_list_bounds:
  fixes xs :: "int list"
  assumes "\<forall>x \<in> set xs. lo \<le> x \<and> x \<le> hi"
  shows "lo * int (length xs) \<le> sum_list xs \<and> sum_list xs \<le> hi * int (length xs)"
  using assms by (induction xs) (auto simp: algebra_simps)

lemma ulp_le:
  assumes "0 < x" and "x < 2 ^ b"
  shows "ulp x \<le> 2 powi (int b - 53)"
proof -
  have "2 powi floor_log2 x \<le> x"
    using floor_log2_bounds(1) [OF assms(1)] .
  then have "(2::rat) powi floor_log2 x < 2 powi int b"
    using assms(2) by simp
  then have "floor_log2 x < int b"
    by (rule power_int_le_imp_less_exp [rotated]) simp_all
  then have "floor_log2 x - 52 \<le> int b - 53" by simp
  then show ?thesis
    using assms(1) unfolding ulp_def by (simp add: power_int_increasing)
qed

lemma avg_double_close:
  assumes "rs \<noteq> []" and "\<forall>x \<in> set rs. 1 \<le> x \<and> x \<le> 5" and "length rs \<le> 10 ^ 13"
  shows "\<bar>avg_double rs - mean rs\<bar> \<le> 1 / 2 ^ 51" and "1 \<le> mean rs" and "mean rs \<le> 5"
proof -
  define n where "n = length rs"
  define s where "s = sum_list rs"
  have n0: "0 < n" and n13: "n \<le> 10 ^ 13"
    using assms(1,3) by (simp_all add: n_def)
  from sum_list_bounds [OF assms(2)]
  have s: "int n \<le> s" "s \<le> 5 * int n"
    by (simp_all add: n_def s_def)
  have "\<bar>s\<bar> < 2 ^ 53" using s n13 by simp
  then have ts: "to_double (of_int s) = of_int s"
    by (rule to_double_of_int)
  have "\<bar>int n\<bar> < 2 ^ 53" using n13 by simp
  then have "to_double (of_int (int n)) = of_int (int n)"
    by (rule to_double_of_int)
  then have tn: "to_double (of_nat n) = of_nat n" by simp
  have avg: "avg_double rs = to_double (mean rs)"
    by (simp add: avg_double_def mean_def ts tn flip: n_def s_def)
  have "rat_of_int (int n) \<le> of_int s" "rat_of_int s \<le> of_int (5 * int n)"
    using s by (simp_all only: of_int_le_iff)
  then show q1: "1 \<le> mean rs" and q5: "mean rs \<le> 5"
    using n0 by (simp_all add: mean_def field_simps flip: n_def s_def)
  have "ulp (mean rs) \<le> 2 powi (int 3 - 53)"
    using q1 q5 by (intro ulp_le) simp_all
  then have "ulp (mean rs) \<le> 1 / 2 ^ 50"
    by (simp add: power_int_minus_divide)
  then show "\<bar>avg_double rs - mean rs\<bar> \<le> 1 / 2 ^ 51"
    using to_double_error [of "mean rs"] unfolding avg by simp
qed

lemma mean_gap:
  assumes "xs \<noteq> []" and "ys \<noteq> []" and "mean xs < mean ys"
  shows "1 / (of_nat (length xs) * of_nat (length ys)) \<le> mean ys - mean xs"
proof -
  define n where "n = length xs"
  define m where "m = length ys"
  have n0: "0 < n" and m0: "0 < m" using assms(1,2) by (simp_all add: n_def m_def)
  have d: "mean ys - mean xs =
      rat_of_int (sum_list ys * int n - sum_list xs * int m) / (of_nat n * of_nat m)"
    using n0 m0 by (simp add: mean_def field_simps flip: n_def m_def)
  have pos: "0 < rat_of_nat n * rat_of_nat m" using n0 m0 by simp
  have "0 < mean ys - mean xs" using assms(3) by simp
  then have "0 < (mean ys - mean xs) * (rat_of_nat n * rat_of_nat m)"
    using pos by (rule mult_pos_pos)
  also have "\<dots> = rat_of_int (sum_list ys * int n - sum_list xs * int m)"
    unfolding d using n0 m0 by simp
  finally have "0 < rat_of_int (sum_list ys * int n - sum_list xs * int m)" .
  then have "0 < sum_list ys * int n - sum_list xs * int m"
    by (simp only: of_int_0_less_iff)
  then have "1 \<le> sum_list ys * int n - sum_list xs * int m" by simp
  then have "rat_of_int 1 \<le> rat_of_int (sum_list ys * int n - sum_list xs * int m)"
    by (simp only: of_int_le_iff)
  then have "1 / (of_nat n * of_nat m) \<le>
      rat_of_int (sum_list ys * int n - sum_list xs * int m) / (of_nat n * of_nat m)"
    using n0 m0 by (intro divide_right_mono) simp_all
  then show ?thesis unfolding d n_def m_def .
qed

lemma avg_double_le_imp_mean_le:
  assumes "xs \<noteq> []" and "\<forall>x \<in> set xs. 1 \<le> x \<and> x \<le> 5" and "length xs \<le> 10 ^ 7"
    and "ys \<noteq> []" and "\<forall>x \<in> set ys. 1 \<le> x \<and> x \<le> 5" and "length ys \<le> 10 ^ 7"
    and "avg_double ys \<le> avg_double xs"
  shows "mean ys \<le> mean xs"
proof (rule ccontr)
  assume "\<not> mean ys \<le> mean xs"
  then have lt: "mean xs < mean ys" by simp
  have lx: "length xs \<le> 10 ^ 13" and ly: "length ys \<le> 10 ^ 13"
    using assms(3,6) by simp_all
  note cx = avg_double_close(1) [OF assms(1,2) lx]
  note cy = avg_double_close(1) [OF assms(4,5) ly]
  have "rat_of_nat (length xs) \<le> 10 ^ 7" "rat_of_nat (length ys) \<le> 10 ^ 7"
    using assms(3,6) by (metis of_nat_le_iff of_nat_numeral of_nat_power)+
  then have "rat_of_nat (length xs) * of_nat (length ys) \<le> 10 ^ 7 * 10 ^ 7"
    by (intro mult_mono) simp_all
  moreover have "0 < rat_of_nat (length xs) * of_nat (length ys)"
    using assms(1,4) by simp
  ultimately have "1 / (10 ^ 7 * 10 ^ 7) \<le> 1 / (rat_of_nat (length xs) * of_nat (length ys))"
    by (intro divide_left_mono) simp_all
  with mean_gap [OF assms(1,4) lt] have "1 / 10 ^ 14 \<le> mean ys - mean xs"
    by simp
  moreover have "(2::rat) / 2 ^ 51 < 1 / 10 ^ 14" by simp
  ultimately show False
    using cx cy assms(7) by linarith
qed

lemma toFixed_small:
  assumes "0 \<le> a" and "a < 10 ^ 21"
  shows "toFixed f a = insert_point f (show_nat (nat (round (a * 10 ^ f))))"
  using assms by (simp add: toFixed_def Let_def)

section \<open>Decimal numerals are read back\<close>

lemma of_char_digit_char: "d < 10 \<Longrightarrow> of_char (digit_char d) = 48 + d"
  by (simp add: digit_char_def)

lemma read_nat_snoc: "read_nat (s @ [c]) = 10 * read_nat s + (of_char c - 48)"
  by (simp add: read_nat_def)

lemma read_nat_show_nat: "read_nat (show_nat n) = n"
proof (induction n rule: show_nat.induct)
  case (1 n)
  show ?case
  proof (cases "n < 10")
    case True
    then show ?thesis
      by (subst show_nat.simps) (simp add: read_nat_def of_char_digit_char)
  next
    case False
    then have "read_nat (show_nat (n div 10)) = n div 10" using 1 by simp
    then show ?thesis
      using False
      by (subst show_nat.simps) (simp add: read_nat_snoc of_char_digit_char)
  qed
qed

lemma read_nat_padStart: "read_nat (padStart k s) = read_nat s"
proof -
  have "foldl (\<lambda>a c. 10 * a + (of_char c - 48)) (0::nat) (replicate j CHR ''0'') = 0" for j
    by (induction j) simp_all
  then show ?thesis by (simp add: read_nat_def padStart_def)
qed

lemma show_nat_no_minus: "CHR ''-'' \<notin> set (show_nat n)"
proof (induction n rule: show_nat.induct)
  case (1 n)
  have d: "digit_char k \<noteq> CHR ''-''" if "k < 10" for k
  proof
    assume "digit_char k = CHR ''-''"
    then have "(of_char (digit_char k) :: nat) = of_char CHR ''-''" by simp
    then show False using that by (simp add: of_char_digit_char)
  qed
  show ?case
  proof (cases "n < 10")
    case True
    then show ?thesis using d [of n] by (subst show_nat.simps) auto
  next
    case False
    then show ?thesis
      using 1 d [of "n mod 10"] by (subst show_nat.simps) auto
  qed
qed

lemma padStart_show_nat_eq_show_int:
  assumes "padStart k (show_nat n) = show_int i"
  shows "i = int n"
proof -
  have "CHR ''-'' \<notin> set (padStart k (show_nat n))"
    by (simp add: padStart_def show_nat_no_minus)
  then have "\<not> i < 0"
    using assms by (auto simp: show_int_def)
  then have "show_int i = show_nat (nat i)" by (simp add: show_int_def)
  then have "read_nat (padStart k (show_nat n)) = read_nat (show_nat (nat i))"
    using assms by simp
  then have "n = nat i" by (simp add: read_nat_padStart read_nat_show_nat)
  then show ?thesis using \<open>\<not> i < 0\<close> by simp
qed

lemma padStart_show_nat_inj:
  assumes "padStart k (show_nat n) = padStart k' (show_nat n')"
  shows "n = n'"
proof -
  have "read_nat (padStart k (show_nat n)) = read_nat (padStart k' (show_nat n'))"
    using assms by simp
  then show ?thesis by (simp add: read_nat_padStart read_nat_show_nat)
qed

lemma digit_char_0: "digit_char 0 = CHR ''0''"
  by code_simp

lemma show_nat_length: "0 < length (show_nat n)"
  by (subst show_nat.simps) simp

lemma show_nat_two_digits:
  assumes "100 \<le> k"
  shows "show_nat k = show_nat (k div 100) @ [digit_char (k div 10 mod 10), digit_char (k mod 10)]"
proof -
  have "show_nat k = show_nat (k div 10) @ [digit_char (k mod 10)]"
    using assms by (subst show_nat.simps) simp
  moreover have "10 \<le> k div 10" using assms by presburger
  then have "show_nat (k div 10) = show_nat (k div 10 div 10) @ [digit_char (k div 10 mod 10)]"
    by (subst show_nat.simps) simp
  moreover have "k div 10 div 10 = k div 100"
    by (simp add: div_mult2_eq [symmetric])
  ultimately show ?thesis by simp
qed

lemma insert_point_two_decimals: "insert_point 2 (show_nat k) = two_decimals k"
proof -
  consider "k < 10" | "10 \<le> k" "k < 100" | "100 \<le> k" by linarith
  then show ?thesis
  proof cases
    case 1
    then have "show_nat k = [digit_char k]" "show_nat 0 = [digit_char 0]"
      by (subst show_nat.simps, simp)+
    then show ?thesis
      using 1 by (simp add: insert_point_def padStart_def two_decimals_def Let_def
          numeral_2_eq_2 flip: digit_char_0)
  next
    case 2
    then have "show_nat k = show_nat (k div 10) @ [digit_char (k mod 10)]"
      by (subst show_nat.simps) simp
    moreover have "k div 10 < 10" using 2 by presburger
    then have "show_nat (k div 10) = [digit_char (k div 10)]"
      by (subst show_nat.simps) simp
    moreover have "show_nat 0 = [digit_char 0]"
      by (subst show_nat.simps) simp
    ultimately show ?thesis
      using 2 by (simp add: insert_point_def padStart_def two_decimals_def Let_def
          flip: digit_char_0)
  next
    case 3
    define h where "h = show_nat (k div 100)"
    have s: "show_nat k = h @ [digit_char (k div 10 mod 10), digit_char (k mod 10)]"
      using show_nat_two_digits [OF 3] by (simp add: h_def)
    have "0 < length h" unfolding h_def by (rule show_nat_length)
    then obtain c cs where h: "h = c # cs" by (cases h) simp_all
    show ?thesis
      by (simp add: insert_point_def padStart_def two_decimals_def Let_def s h flip: h_def)
  qed
qed

section \<open>Averages as text\<close>

lemma show_nat_four_digits:
  assumes "1000 \<le> n"
  shows "4 \<le> length (show_nat n)"
proof -
  have 1: "show_nat n = show_nat (n div 100) @ [digit_char (n div 10 mod 10), digit_char (n mod 10)]"
    using assms by (intro show_nat_two_digits) simp
  have "10 \<le> n div 100" using assms by presburger
  then have 2: "show_nat (n div 100) = show_nat (n div 100 div 10) @ [digit_char (n div 100 mod 10)]"
    by (subst show_nat.simps) simp
  have "0 < length (show_nat (n div 100 div 10))" by (rule show_nat_length)
  then show ?thesis
    unfolding 1 2 by (cases "show_nat (n div 100 div 10)") simp_all
qed

lemma ulp_relative:
  assumes "x \<noteq> 0"
  shows "ulp x \<le> \<bar>x\<bar> / 2 ^ 52"
proof -
  have "2 powi floor_log2 \<bar>x\<bar> \<le> \<bar>x\<bar>"
    using floor_log2_bounds(1) [of "\<bar>x\<bar>"] assms by simp
  moreover have "ulp x = 2 powi floor_log2 \<bar>x\<bar> / 2 ^ 52"
    by (simp add: ulp_def power_int_diff)
  ultimately show ?thesis
    by (simp add: divide_right_mono)
qed

lemma to_double_relative:
  assumes "x \<noteq> 0"
  shows "\<bar>to_double x - x\<bar> \<le> \<bar>x\<bar> / 2 ^ 53"
proof -
  have "\<bar>to_double x - x\<bar> \<le> ulp x / 2" by (rule to_double_error)
  also have "\<dots> \<le> (\<bar>x\<bar> / 2 ^ 52) / 2"
    using ulp_relative [OF assms] by (rule divide_right_mono) simp
  finally show ?thesis by simp
qed

lemma avg_double_mean:
  assumes "\<bar>sum_list rs\<bar> < 2 ^ 53" and "int (length rs) < 2 ^ 53"
  shows "avg_double rs = to_double (mean rs)"
proof -
  have ts: "to_double (of_int (sum_list rs)) = of_int (sum_list rs)"
    using assms(1) by (rule to_double_of_int)
  have "\<bar>int (length rs)\<bar> < 2 ^ 53" using assms(2) by simp
  then have "to_double (of_int (int (length rs))) = of_int (int (length rs))"
    by (rule to_double_of_int)
  then have tn: "to_double (of_nat (length rs)) = of_nat (length rs)" by simp
  show ?thesis
    by (simp add: avg_double_def mean_def ts tn)
qed

lemma toFixed_avg_double:
  assumes "sum_list rs \<noteq> 0" and "\<bar>sum_list rs\<bar> \<le> 4 * 10 ^ 13" and "length rs \<le> 10 ^ 15"
  shows "avg_double rs \<noteq> 0"
    and "\<exists>k :: nat. toFixed 2 (avg_double rs) =
             (if mean rs < 0 then ''-'' else '''') @ two_decimals k \<and>
           \<bar>of_nat k / 100 - \<bar>mean rs\<bar>\<bar> \<le> 1 / 200"
proof -
  define n where "n = length rs"
  define s where "s = sum_list rs"
  define q where "q = mean rs"
  define a where "a = avg_double rs"
  define k where "k = nat (round (\<bar>a\<bar> * 100))"
  have rs0: "rs \<noteq> []" using assms(1) by auto
  then have n0: "0 < n" by (simp add: n_def)
  have n15: "n \<le> 10 ^ 15" using assms(3) by (simp add: n_def)
  have s0: "s \<noteq> 0" and s13: "\<bar>s\<bar> \<le> 4 * 10 ^ 13" using assms(1,2) by (simp_all add: s_def)
  have qs: "q = of_int s / of_nat n"
    by (simp add: q_def mean_def s_def n_def)
  have q0: "q \<noteq> 0" using s0 n0 by (simp add: qs)
  have "\<bar>sum_list rs\<bar> < 2 ^ 53" using assms(2) by simp
  moreover have "int (length rs) < 2 ^ 53" using assms(3) by simp
  ultimately have aq: "a = to_double q"
    unfolding a_def q_def by (rule avg_double_mean)
  have err: "\<bar>a - q\<bar> \<le> \<bar>q\<bar> / 2 ^ 53"
    unfolding aq using q0 by (rule to_double_relative)
  have qpos: "0 < \<bar>q\<bar>" using q0 by simp
  have lt: "\<bar>a - q\<bar> < \<bar>q\<bar>"
  proof -
    have "\<bar>q\<bar> / 2 ^ 53 < \<bar>q\<bar>" using qpos by (simp add: field_simps)
    with err show ?thesis by (rule order_le_less_trans)
  qed
  then show a0: "avg_double rs \<noteq> 0"
    unfolding a_def [symmetric] by auto
  have sign: "a < 0 \<longleftrightarrow> q < 0"
    using lt by (auto simp: abs_if split: if_splits)
  have qn: "\<bar>q\<bar> * of_nat n = of_int \<bar>s\<bar>"
    using n0 by (simp add: qs abs_divide)
  have "1 \<le> rat_of_nat n" using n0 by simp
  then have "\<bar>q\<bar> * 1 \<le> \<bar>q\<bar> * of_nat n"
    by (intro mult_left_mono) simp_all
  then have qle: "\<bar>q\<bar> \<le> of_int \<bar>s\<bar>" by (simp add: qn)
  have srat: "rat_of_int \<bar>s\<bar> \<le> 4 * 10 ^ 13"
  proof -
    have "rat_of_int \<bar>s\<bar> \<le> rat_of_int (4 * 10 ^ 13)" using s13 by (simp only: of_int_le_iff)
    then show ?thesis by simp
  qed
  have d: "\<bar>\<bar>a\<bar> - \<bar>q\<bar>\<bar> \<le> \<bar>q\<bar> / 2 ^ 53"
    using abs_triangle_ineq3 [of a q] err by simp
  have "\<bar>a\<bar> - \<bar>q\<bar> \<le> \<bar>\<bar>a\<bar> - \<bar>q\<bar>\<bar>" by (rule abs_ge_self)
  also note d
  also have "\<bar>q\<bar> / 2 ^ 53 \<le> \<bar>q\<bar>" using qpos by (simp add: field_simps)
  finally have "\<bar>a\<bar> \<le> 2 * \<bar>q\<bar>" by simp
  also have "\<dots> \<le> 2 * (4 * 10 ^ 13)" using qle srat by simp
  finally have a21: "\<not> 10 ^ 21 \<le> \<bar>a\<bar>" by simp
  have fixed: "toFixed 2 a = (if q < 0 then ''-'' else '''') @ two_decimals k"
    using a21 by (simp add: toFixed_def Let_def k_def insert_point_two_decimals sign)
  have "0 \<le> round (\<bar>a\<bar> * 100)"
    by (simp add: round_def)
  then have k: "rat_of_nat k = of_int (round (\<bar>a\<bar> * 100))"
    by (simp add: k_def)
  have r: "\<bar>rat_of_nat k - \<bar>a\<bar> * 100\<bar> \<le> 1 / 2"
    unfolding k by (rule of_int_round_abs_le)
  have "rat_of_nat k - 100 * \<bar>q\<bar> = (rat_of_nat k - \<bar>a\<bar> * 100) + 100 * (\<bar>a\<bar> - \<bar>q\<bar>)"
    by simp
  then have "\<bar>rat_of_nat k - 100 * \<bar>q\<bar>\<bar> \<le>
      \<bar>rat_of_nat k - \<bar>a\<bar> * 100\<bar> + \<bar>100 * (\<bar>a\<bar> - \<bar>q\<bar>)\<bar>"
    by (simp only: abs_triangle_ineq)
  also have "\<bar>100 * (\<bar>a\<bar> - \<bar>q\<bar>)\<bar> = 100 * \<bar>\<bar>a\<bar> - \<bar>q\<bar>\<bar>"
    by (simp only: abs_mult abs_numeral)
  also have "\<bar>rat_of_nat k - \<bar>a\<bar> * 100\<bar> + 100 * \<bar>\<bar>a\<bar> - \<bar>q\<bar>\<bar> \<le> 1 / 2 + 100 * (\<bar>q\<bar> / 2 ^ 53)"
    using r d by (intro add_mono mult_left_mono) simp_all
  finally have near100: "\<bar>rat_of_nat k - 100 * \<bar>q\<bar>\<bar> \<le> 1 / 2 + 100 * (\<bar>q\<bar> / 2 ^ 53)"
    by simp
  define D where "D = \<bar>int k * int n - 100 * \<bar>s\<bar>\<bar>"
  have D: "rat_of_int D = \<bar>rat_of_nat k - 100 * \<bar>q\<bar>\<bar> * of_nat n"
  proof -
    have "(rat_of_nat k - 100 * \<bar>q\<bar>) * of_nat n = of_int (int k * int n - 100 * \<bar>s\<bar>)"
      using qn by (simp add: left_diff_distrib mult.assoc)
    then have "\<bar>rat_of_nat k - 100 * \<bar>q\<bar>\<bar> * \<bar>rat_of_nat n\<bar> =
        \<bar>rat_of_int (int k * int n - 100 * \<bar>s\<bar>)\<bar>"
      by (simp only: flip: abs_mult)
    then show ?thesis by (simp add: D_def)
  qed
  have "rat_of_int D \<le> (1 / 2 + 100 * (\<bar>q\<bar> / 2 ^ 53)) * of_nat n"
    unfolding D using near100 by (intro mult_right_mono) simp_all
  also have "\<dots> = of_nat n / 2 + 100 * of_int \<bar>s\<bar> / 2 ^ 53"
    using qn by (simp add: algebra_simps)
  finally have "2 * rat_of_int D \<le> of_nat n + 200 * of_int \<bar>s\<bar> / 2 ^ 53"
    by simp
  moreover have "200 * rat_of_int \<bar>s\<bar> / 2 ^ 53 < 1"
    using srat by simp
  ultimately have "2 * rat_of_int D < of_nat n + 1"
    by linarith
  then have "rat_of_int (2 * D) < rat_of_int (int n + 1)" by simp
  then have "2 * D < int n + 1" by (simp only: of_int_less_iff)
  then have "2 * D \<le> int n" by simp
  then have "rat_of_int (2 * D) \<le> rat_of_int (int n)" by (simp only: of_int_le_iff)
  then have "\<bar>rat_of_nat k - 100 * \<bar>q\<bar>\<bar> * of_nat n \<le> of_nat n / 2"
    by (simp add: D)
  then have "\<bar>rat_of_nat k - 100 * \<bar>q\<bar>\<bar> \<le> 1 / 2"
    using n0 by (simp add: field_simps)
  then have near: "\<bar>rat_of_nat k / 100 - \<bar>q\<bar>\<bar> \<le> 1 / 200"
    by (simp add: abs_le_iff field_simps)
  from fixed near show "\<exists>k :: nat. toFixed 2 (avg_double rs) =
             (if mean rs < 0 then ''-'' else '''') @ two_decimals k \<and>
           \<bar>of_nat k / 100 - \<bar>mean rs\<bar>\<bar> \<le> 1 / 200"
    unfolding a_def q_def by blast
qed

section \<open>Dates\<close>

text \<open>
  \<open>YearFromDay\<close> is the year of a day: the largest year that starts on or before it.
  Years have 365 or 366 days, and the day of the month lies between 1 and 31.
\<close>

lemma int_div_bounds:
  fixes x c :: int
  assumes "0 < c"
  shows "c * (x div c) \<le> x" and "x < c * (x div c) + c"
proof -
  have "x = c * (x div c) + x mod c" by simp
  moreover have "0 \<le> x mod c" "x mod c < c" using assms by simp_all
  ultimately show "c * (x div c) \<le> x" and "x < c * (x div c) + c" by linarith+
qed

lemma DayFromYear_bounds:
  "146097 * y - 287811790 \<le> 400 * DayFromYear y"
  "400 * DayFromYear y \<le> 146097 * y - 287810390"
proof -
  define a where "a = (y - 1969) div 4"
  define b where "b = (y - 1901) div 100"
  define c where "c = (y - 1601) div 400"
  have a: "4 * a \<le> y - 1969" "y - 1969 < 4 * a + 4"
    unfolding a_def by (rule int_div_bounds; simp)+
  have b: "100 * b \<le> y - 1901" "y - 1901 < 100 * b + 100"
    unfolding b_def by (rule int_div_bounds; simp)+
  have c: "400 * c \<le> y - 1601" "y - 1601 < 400 * c + 400"
    unfolding c_def by (rule int_div_bounds; simp)+
  have d: "400 * DayFromYear y = 146000 * y - 287620000 + 400 * a - 400 * b + 400 * c"
    by (simp add: DayFromYear_def a_def b_def c_def)
  show "146097 * y - 287811790 \<le> 400 * DayFromYear y"
    unfolding d using a b c by linarith
  show "400 * DayFromYear y \<le> 146097 * y - 287810390"
    unfolding d using a b c by linarith
qed

lemma YearFromDay_bounds:
  "DayFromYear (YearFromDay d) \<le> d \<and> d < DayFromYear (YearFromDay d + 1)"
proof -
  define q where "q = (d * 400) div 146097"
  define g where "g = 1970 + q"
  have q: "146097 * q \<le> d * 400" "d * 400 < 146097 * q + 146097"
    unfolding q_def by (rule int_div_bounds; simp)+
  have g: "146097 * g - 287811090 \<le> d * 400" "d * 400 < 146097 * g - 287664993"
    using q by (simp_all add: g_def)
  have lo: "DayFromYear (g - 1) \<le> d"
  proof -
    have "400 * DayFromYear (g - 1) \<le> 146097 * g - 287956487"
      using DayFromYear_bounds(2) [of "g - 1"] by (simp add: algebra_simps)
    then show ?thesis using g by linarith
  qed
  have hi: "d < DayFromYear (g + 2)"
  proof -
    have "146097 * g - 287519596 \<le> 400 * DayFromYear (g + 2)"
      using DayFromYear_bounds(1) [of "g + 2"] by (simp add: algebra_simps)
    then show ?thesis using g by linarith
  qed
  have y: "YearFromDay d =
      (if DayFromYear (g + 1) \<le> d then g + 1 else if DayFromYear g \<le> d then g else g - 1)"
    by (simp add: YearFromDay_def Let_def g_def q_def)
  have hi': "d < DayFromYear (2 + g)"
    using hi by (simp add: add.commute)
  show ?thesis
    using lo hi' unfolding y by (auto simp: not_le)
qed

lemma DayFromYear_strict_mono:
  assumes "x < y"
  shows "DayFromYear x < DayFromYear y"
proof -
  have "146097 * x + 146097 \<le> 146097 * y" using assms by simp
  then show ?thesis
    using DayFromYear_bounds(2) [of x] DayFromYear_bounds(1) [of y] by linarith
qed

lemma YearFromDay_largest:
  assumes "DayFromYear y \<le> d"
  shows "y \<le> YearFromDay d"
proof (rule ccontr)
  assume "\<not> y \<le> YearFromDay d"
  then have "YearFromDay d + 1 \<le> y" by simp
  then have "DayFromYear (YearFromDay d + 1) \<le> DayFromYear y"
    using DayFromYear_strict_mono [of "YearFromDay d + 1" y] by (cases "YearFromDay d + 1 = y") auto
  then show False using YearFromDay_bounds [of d] assms by linarith
qed

lemma div_step:
  fixes x c :: int
  assumes "0 < c"
  shows "(x + 1) div c = x div c + (if (x + 1) mod c = 0 then 1 else 0)"
proof -
  define q where "q = (x + 1) div c"
  define r where "r = (x + 1) mod c"
  have x: "x + 1 = c * q + r" by (simp add: q_def r_def)
  have r: "0 \<le> r" "r < c" using assms by (simp_all add: r_def)
  show ?thesis
  proof (cases "r = 0")
    case True
    have "x = c * (q - 1) + (c - 1)" using x True by (simp add: algebra_simps)
    then have "x div c = q - 1"
      using assms by (intro int_div_pos_eq [where r = "c - 1"]) simp_all
    then show ?thesis using True by (simp add: q_def r_def)
  next
    case False
    have "x = c * q + (r - 1)" using x by simp
    then have "x div c = q"
      using r False by (intro int_div_pos_eq [where r = "r - 1"]) simp_all
    then show ?thesis using False by (simp add: q_def r_def)
  qed
qed

lemma DaysInYear: "DayFromYear (y + 1) - DayFromYear y = 365 + InLeapYear y"
proof -
  have 4: "(y + 1 - 1969) div 4 = (y - 1969) div 4 + (if y mod 4 = 0 then 1 else 0)"
  proof -
    have "(y - 1969 + 1) mod 4 = (y + (- 492) * 4) mod 4" by simp
    then have "(y - 1969 + 1) mod 4 = 0 \<longleftrightarrow> y mod 4 = 0" by (simp only: mod_mult_self1)
    then show ?thesis using div_step [of 4 "y - 1969"] by (simp add: algebra_simps)
  qed
  have 100: "(y + 1 - 1901) div 100 = (y - 1901) div 100 + (if y mod 100 = 0 then 1 else 0)"
  proof -
    have "(y - 1901 + 1) mod 100 = (y + (- 19) * 100) mod 100" by simp
    then have "(y - 1901 + 1) mod 100 = 0 \<longleftrightarrow> y mod 100 = 0" by (simp only: mod_mult_self1)
    then show ?thesis using div_step [of 100 "y - 1901"] by (simp add: algebra_simps)
  qed
  have 400: "(y + 1 - 1601) div 400 = (y - 1601) div 400 + (if y mod 400 = 0 then 1 else 0)"
  proof -
    have "(y - 1601 + 1) mod 400 = (y + (- 4) * 400) mod 400" by simp
    then have "(y - 1601 + 1) mod 400 = 0 \<longleftrightarrow> y mod 400 = 0" by (simp only: mod_mult_self1)
    then show ?thesis using div_step [of 400 "y - 1601"] by (simp add: algebra_simps)
  qed
  have a: "y mod 100 = 0 \<Longrightarrow> y mod 4 = 0"
    using dvd_trans [of 4 100 y] by (simp add: mod_eq_0_iff_dvd)
  have b: "y mod 400 = 0 \<Longrightarrow> y mod 100 = 0"
    using dvd_trans [of 100 400 y] by (simp add: mod_eq_0_iff_dvd)
  show ?thesis
    unfolding DayFromYear_def InLeapYear_def 4 100 400 using a b by auto
qed

lemma InLeapYear_range: "InLeapYear y = 0 \<or> InLeapYear y = 1"
  by (simp add: InLeapYear_def)

lemma DayWithinYear_range:
  "0 \<le> DayWithinYear d \<and> DayWithinYear d < 365 + InLeapYear (YearFromDay d)"
  using YearFromDay_bounds [of d] DaysInYear [of "YearFromDay d"]
  unfolding DayWithinYear_def by linarith

lemma DateFromDay_range: "1 \<le> DateFromDay d \<and> DateFromDay d \<le> 31"
  using DayWithinYear_range [of d] InLeapYear_range [of "YearFromDay d"]
  unfolding DateFromDay_def MonthFromDay_def month_start_def Let_def
  by (auto split: if_splits)

lemma MonthFromDay_range: "0 \<le> MonthFromDay d \<and> MonthFromDay d \<le> 11"
  by (simp add: MonthFromDay_def Let_def)

lemma MakeDay_DateFromDay:
  "MakeDay (YearFromDay d) (MonthFromDay d) (DateFromDay d + k) = d + k"
proof -
  have "MonthFromDay d div 12 = 0" "MonthFromDay d mod 12 = MonthFromDay d"
    using MonthFromDay_range [of d] by simp_all
  then show ?thesis
    by (simp add: MakeDay_def Let_def DateFromDay_def DayWithinYear_def)
qed

lemma Day_MakeDate:
  "Day (MakeDate dy (TimeWithinDay t)) = dy"
  "TimeWithinDay (MakeDate dy (TimeWithinDay t)) = TimeWithinDay t"
  by (simp_all add: Day_def MakeDate_def TimeWithinDay_def msPerDay_def)

lemma LocalTime_UTC [simp]: "LocalTime (fixed_zone off) (UTC (fixed_zone off) t) = t"
  by (simp add: LocalTime_def UTC_def fixed_zone_def)

lemma setDate_shift:
  "Day (LocalTime (fixed_zone off) (setDate (fixed_zone off) t (getDate (fixed_zone off) t + k))) =
     Day (LocalTime (fixed_zone off) t) + k"
  by (simp add: setDate_def Let_def getDate_def Day_MakeDate MakeDay_DateFromDay)

lemma week_offset:
  fixes D :: int
  defines "w \<equiv> (D + 4) mod 7"
  defines "k \<equiv> - w + (if w = 0 then - 6 else 1)"
  shows "k = - ((w + 6) mod 7)" and "(D + k + 4) mod 7 = 1" and "(D + k + 6 + 4) mod 7 = 0"
proof -
  have r: "0 \<le> w" "w < 7" by (simp_all add: w_def)
  have D: "D + 4 = 7 * ((D + 4) div 7) + w" by (simp add: w_def)
  from r consider "w = 0" | "w = 1" | "w = 2" | "w = 3" | "w = 4" | "w = 5" | "w = 6"
    by linarith
  then have k: "k = - ((w + 6) mod 7)"
    by cases (simp_all add: k_def)
  then show "k = - ((w + 6) mod 7)" .
  have wk: "w + k = 1 \<or> w + k = - 6"
    using r unfolding k_def by auto
  have "D + k + 4 = 7 * ((D + 4) div 7) + (w + k)"
    using D by simp
  then have "(D + k + 4) mod 7 = (7 * ((D + 4) div 7) + (w + k)) mod 7"
    by (simp only:)
  also have "\<dots> = (w + k) mod 7"
    by (simp only: mod_mult_self4)
  also have "\<dots> = 1"
    using wk by auto
  finally show 1: "(D + k + 4) mod 7 = 1" .
  have "(D + k + 6 + 4) mod 7 = ((D + k + 4) mod 7 + 6) mod 7"
    by (simp add: mod_simps algebra_simps)
  then show "(D + k + 6 + 4) mod 7 = 0"
    by (simp add: 1)
qed

lemma in_period_sound:
  assumes "in_period (padStart 2 (show_int (getMonth tza now + 1))) (show_int (getFullYear tza now)) r"
  shows "in_month (getFullYear tza now) (getMonth tza now) r"
proof -
  let ?d = "rated_date r"
  have M: "0 \<le> getMonth tza now" using MonthFromDay_range by (simp add: getMonth_def)
  have m: "0 \<le> MonthFromDay ?d" using MonthFromDay_range by simp
  from assms have y: "0 \<le> YearFromDay ?d"
    and 1: "padStart 4 (show_nat (nat (YearFromDay ?d))) = show_int (getFullYear tza now)"
    and 2: "padStart 2 (show_nat (nat (MonthFromDay ?d + 1))) =
            padStart 2 (show_int (getMonth tza now + 1))"
    by (auto simp: in_period_def strftime_Y_def strftime_m_def split: if_splits)
  from padStart_show_nat_eq_show_int [OF 1] y
  have "getFullYear tza now = YearFromDay ?d" by simp
  moreover have "show_int (getMonth tza now + 1) = show_nat (nat (getMonth tza now + 1))"
    using M by (simp add: show_int_def)
  with 2 have "nat (MonthFromDay ?d + 1) = nat (getMonth tza now + 1)"
    by (simp add: padStart_show_nat_inj)
  with M m have "MonthFromDay ?d = getMonth tza now" by simp
  ultimately show ?thesis by (simp add: in_month_def)
qed

lemma in_period_complete:
  assumes "in_period p1 p2 r0"
    and "YearFromDay (rated_date r) = YearFromDay (rated_date r0)"
    and "MonthFromDay (rated_date r) = MonthFromDay (rated_date r0)"
  shows "in_period p1 p2 r"
  using assms by (auto simp: in_period_def strftime_Y_def strftime_m_def split: if_splits)

lemma in_month_imp_in_period:
  assumes "1000 \<le> getFullYear tza now" and "getFullYear tza now \<le> 9999"
    and "in_month (getFullYear tza now) (getMonth tza now) r"
  shows "in_period (padStart 2 (show_int (getMonth tza now + 1))) (show_int (getFullYear tza now)) r"
proof -
  define Y where "Y = getFullYear tza now"
  have y: "YearFromDay (rated_date r) = Y" and m: "MonthFromDay (rated_date r) = getMonth tza now"
    using assms(3) by (simp_all add: in_month_def Y_def)
  have Y: "1000 \<le> Y" "Y \<le> 9999" using assms(1,2) by (simp_all add: Y_def)
  have "1000 \<le> nat Y" using Y by simp
  then have "4 \<le> length (show_nat (nat Y))" by (rule show_nat_four_digits)
  then have "padStart 4 (show_nat (nat Y)) = show_nat (nat Y)"
    by (simp add: padStart_def)
  moreover have "show_int Y = show_nat (nat Y)"
    using Y by (simp add: show_int_def)
  ultimately have 1: "strftime_Y (rated_date r) = Some (show_int Y)"
    using Y by (simp add: strftime_Y_def y)
  have "0 \<le> getMonth tza now" using MonthFromDay_range by (simp add: getMonth_def)
  then have "show_int (getMonth tza now + 1) = show_nat (nat (getMonth tza now + 1))"
    by (simp add: show_int_def)
  then have 2: "strftime_m (rated_date r) = Some (padStart 2 (show_int (getMonth tza now + 1)))"
    using Y by (simp add: strftime_m_def y m)
  show ?thesis
    using 1 2 by (simp add: in_period_def Y_def)
qed

section \<open>Queries and the recipe gateway\<close>

lemma average_rating_healthy:
  "average_rating None d c =
     res_json (aggregate_json
       (Some \<lparr>avgRating = sql_avg (map rating (ratings_of d c)),
              ratingCount = length (ratings_of d c)\<rparr>))"
  by (simp add: average_rating_def average_rating_callback_def db_get_def
      average_rating_query_def Let_def)

lemma ratings_of_empty_iff:
  "ratings_of d c = [] \<longleftrightarrow> (\<forall>r \<in> set (CocktailRatings d). cocktail_id r \<noteq> c)"
  by (auto simp: ratings_of_def filter_empty_conv)

lemma moods_query_member:
  assumes "moods_query random d mood = Some i"
  shows "\<exists>m \<in> set (Moods d). Mood m = mood \<and> ID m = i"
proof -
  define rows where "rows = filter (\<lambda>m. Mood m = mood) (Moods d)"
  define ordered where "ordered = sort_key fst (zip (map random [0 ..< length rows]) rows)"
  from assms obtain k row rest where o: "ordered = (k, row) # rest" and i: "i = ID row"
    unfolding moods_query_def Let_def rows_def [symmetric] ordered_def [symmetric]
    by (auto split: list.splits)
  have "(k, row) \<in> set ordered" using o by simp
  then have "(k, row) \<in> set (zip (map random [0 ..< length rows]) rows)"
    by (simp add: ordered_def)
  then have "row \<in> set rows" by (rule set_zip_rightD)
  then show ?thesis using i by (auto simp: rows_def)
qed

lemma moods_query_None_iff:
  "moods_query random d mood = None \<longleftrightarrow> filter (\<lambda>m. Mood m = mood) (Moods d) = []"
proof -
  define rows where "rows = filter (\<lambda>m. Mood m = mood) (Moods d)"
  define ordered where "ordered = sort_key fst (zip (map random [0 ..< length rows]) rows)"
  have "length ordered = length rows" by (simp add: ordered_def)
  then have "ordered = [] \<longleftrightarrow> rows = []" by (metis length_0_conv)
  moreover have "moods_query random d mood = None \<longleftrightarrow> ordered = []"
    unfolding moods_query_def Let_def rows_def [symmetric] ordered_def [symmetric]
    by (auto split: list.splits)
  ultimately show ?thesis by (simp add: rows_def)
qed




lemma member_not_null: "member k data = Some v \<Longrightarrow> data \<noteq> JNull"
  by (auto simp: member_def)

lemma hydrate_falsy_drinks:
  assumes "member ''drinks'' data = Some drinks" and "\<not> truthy drinks"
  shows "hydrate (Parsed data) = \<lparr>status = 404, payload = Text ''Cocktail not found''\<rparr>"
  using assms member_not_null [OF assms(1)]
  by (simp add: hydrate_def drinks_handler_def res_status_send_def)





lemma hydrate_status: "status (hydrate r) = 200 \<or> status (hydrate r) = 404 \<or> status (hydrate r) = 500"
  by (auto simp: hydrate_def drinks_handler_def res_status_send_def res_json_def
      res_json_undefined_def split: upstream.splits option.splits)



lemma top_rated_query_Some:
  assumes "top_rated_query tie d p1 p2 = Some (c, a)"
  defines "rows \<equiv> filter (in_period p1 p2) (CocktailRatings d)"
  shows "c \<in> cocktail_id ` set rows" and "a = group_avg rows c"
    and "\<forall>c' \<in> cocktail_id ` set rows. group_avg rows c' \<le> a"
proof -
  define groups where "groups = map (\<lambda>c. (c, group_avg rows c)) (remdups (map cocktail_id rows))"
  define key :: "string \<times> rat \<Rightarrow> rat \<times> nat" where "key = (\<lambda>(c, a). (- a, tie c))"
  define ordered where "ordered = sort_key key groups"
  from assms(1) obtain rest where o: "ordered = (c, a) # rest"
    unfolding top_rated_query_def Let_def rows_def [symmetric] groups_def [symmetric]
      key_def [symmetric] ordered_def [symmetric]
    by (auto split: list.splits)
  have sg: "set ordered = set groups" by (simp add: ordered_def)
  have "(c, a) \<in> set groups" using o sg by auto
  then show c: "c \<in> cocktail_id ` set rows" and a: "a = group_avg rows c"
    by (auto simp: groups_def)
  have "sorted (map key ordered)" by (simp add: ordered_def)
  then have min: "\<forall>g \<in> set ordered. key (c, a) \<le> key g"
    unfolding o by auto
  show "\<forall>c' \<in> cocktail_id ` set rows. group_avg rows c' \<le> a"
  proof
    fix c' assume "c' \<in> cocktail_id ` set rows"
    then have "(c', group_avg rows c') \<in> set ordered"
      unfolding sg by (auto simp: groups_def)
    with min have "key (c, a) \<le> key (c', group_avg rows c')" by blast
    then show "group_avg rows c' \<le> a"
      by (auto simp: key_def less_eq_prod_def)
  qed
qed

lemma top_rated_query_None_iff:
  "top_rated_query tie d p1 p2 = None \<longleftrightarrow> filter (in_period p1 p2) (CocktailRatings d) = []"
proof -
  define rows where "rows = filter (in_period p1 p2) (CocktailRatings d)"
  define groups where "groups = map (\<lambda>c. (c, group_avg rows c)) (remdups (map cocktail_id rows))"
  define key :: "string \<times> rat \<Rightarrow> rat \<times> nat" where "key = (\<lambda>(c, a). (- a, tie c))"
  define ordered where "ordered = sort_key key groups"
  have "length ordered = length groups" by (simp add: ordered_def)
  then have "ordered = [] \<longleftrightarrow> groups = []" by (metis length_0_conv)
  also have "\<dots> \<longleftrightarrow> rows = []" by (simp add: groups_def)
  finally have "ordered = [] \<longleftrightarrow> rows = []" .
  moreover have "top_rated_query tie d p1 p2 = None \<longleftrightarrow> ordered = []"
    unfolding top_rated_query_def Let_def rows_def [symmetric] groups_def [symmetric]
      key_def [symmetric] ordered_def [symmetric]
    by (auto split: list.splits)
  ultimately show ?thesis by (simp add: rows_def)
qed

lemma month_ratings_bounds:
  assumes "\<forall>r \<in> set (CocktailRatings d). in_month y m r \<longrightarrow> 1 \<le> rating r \<and> rating r \<le> 5"
    and "length (CocktailRatings d) \<le> 10 ^ 7"
  shows "\<forall>x \<in> set (month_ratings d y m c). 1 \<le> x \<and> x \<le> 5"
    and "length (month_ratings d y m c) \<le> 10 ^ 7"
proof -
  show "\<forall>x \<in> set (month_ratings d y m c). 1 \<le> x \<and> x \<le> 5"
    using assms(1) by (auto simp: month_ratings_def)
  have "length (month_ratings d y m c) \<le> length (CocktailRatings d)"
    by (simp add: month_ratings_def)
  then show "length (month_ratings d y m c) \<le> 10 ^ 7"
    using assms(2) by (rule order_trans)
qed

section \<open>The average-rating route\<close>

text \<open>
  Claim C1. For a cocktail with \<open>N \<ge> 1\<close> rating rows whose ratings are integers from 1
  to 5, the average-rating route answers 200 with \<open>ratingCount = N\<close> and with
  \<open>averageRating\<close> the arithmetic mean of the ratings written with two decimals: the
  numeral of \<open>k / 100\<close> that is printed is within 0.005 of the exact mean. (Up to
  \<open>10^13\<close> rows, where the sum and the count are exact doubles. A mean exactly halfway
  between two such numerals is printed as one of the two, as the double nearest the mean
  decides.)
\<close>

theorem average_rating_mean:
  assumes "ratings_of d cocktailId \<noteq> []"
    and "\<forall>r \<in> set (ratings_of d cocktailId). 1 \<le> rating r \<and> rating r \<le> 5"
    and "length (ratings_of d cocktailId) \<le> 10 ^ 13"
  shows "\<exists>k :: nat.
           average_rating None d cocktailId =
             \<lparr>status = 200,
              payload = Json (JObj [(''averageRating'', JStr (two_decimals k)),
                                    (''ratingCount'',
                                     JNum (of_nat (length (ratings_of d cocktailId))))])\<rparr> \<and>
           \<bar>of_nat k / 100 - mean (map rating (ratings_of d cocktailId))\<bar> \<le> 1 / 200"
proof -
  define rs where "rs = map rating (ratings_of d cocktailId)"
  define n where "n = length rs"
  define s where "s = sum_list rs"
  define q where "q = mean rs"
  define a where "a = avg_double rs"
  define k where "k = nat (round (a * 100))"
  have rs0: "rs \<noteq> []" and n0: "0 < n" and n13: "n \<le> 10 ^ 13"
    using assms(1,3) by (simp_all add: n_def rs_def)
  have b: "\<forall>x \<in> set rs. 1 \<le> x \<and> x \<le> 5"
    using assms(2) by (auto simp: rs_def)
  have n13': "length rs \<le> 10 ^ 13" using n13 by (simp add: n_def)
  note close = avg_double_close [OF rs0 b n13', folded a_def q_def]
  have err: "\<bar>a - q\<bar> \<le> 1 / 2 ^ 51" and q1: "1 \<le> q" and q5: "q \<le> 5"
    using close by simp_all
  have "\<bar>a - q\<bar> \<le> 1 / 2"
    using err by (rule order_trans) simp
  then have a0: "0 < a" and "a < 6"
    using q1 q5 by linarith+
  then have a21: "a < 10 ^ 21" by simp
  have fixed: "toFixed 2 a = two_decimals k"
    using toFixed_small [OF less_imp_le [OF a0] a21, of 2]
    by (simp add: k_def insert_point_two_decimals)
  have "0 \<le> round (a * 100)"
    using a0 by (simp add: round_def)
  then have k: "rat_of_nat k = of_int (round (a * 100))"
    by (simp add: k_def)
  have r: "\<bar>rat_of_nat k - a * 100\<bar> \<le> 1 / 2"
    unfolding k by (rule of_int_round_abs_le)
  have "rat_of_nat k - 100 * q = (rat_of_nat k - a * 100) + 100 * (a - q)"
    by simp
  then have "\<bar>rat_of_nat k - 100 * q\<bar> \<le> \<bar>rat_of_nat k - a * 100\<bar> + \<bar>100 * (a - q)\<bar>"
    by (simp only: abs_triangle_ineq)
  also have "\<bar>100 * (a - q)\<bar> = 100 * \<bar>a - q\<bar>"
    by (simp only: abs_mult abs_numeral)
  also have "\<bar>rat_of_nat k - a * 100\<bar> + 100 * \<bar>a - q\<bar> \<le> 1 / 2 + 100 * (1 / 2 ^ 51)"
    using r err by (intro add_mono mult_left_mono) simp_all
  finally have near100: "\<bar>rat_of_nat k - 100 * q\<bar> \<le> 1 / 2 + 100 / 2 ^ 51"
    by simp
  have qs: "q = of_int s / of_nat n"
    by (simp add: q_def mean_def s_def n_def)
  define D where "D = \<bar>int k * int n - 100 * s\<bar>"
  have D: "rat_of_int D = \<bar>rat_of_nat k - 100 * q\<bar> * of_nat n"
  proof -
    have "(rat_of_nat k - 100 * q) * of_nat n = of_int (int k * int n - 100 * s)"
      using n0 by (simp add: qs left_diff_distrib)
    then have "\<bar>rat_of_nat k - 100 * q\<bar> * \<bar>rat_of_nat n\<bar> =
        \<bar>rat_of_int (int k * int n - 100 * s)\<bar>"
      by (simp only: flip: abs_mult)
    then show ?thesis by (simp add: D_def)
  qed
  have "rat_of_int D \<le> (1 / 2 + 100 / 2 ^ 51) * of_nat n"
    unfolding D using near100 by (intro mult_right_mono) simp_all
  moreover have "rat_of_nat n \<le> 10 ^ 13"
    using n13 by (metis of_nat_le_iff of_nat_numeral of_nat_power)
  ultimately have "2 * rat_of_int D < of_nat n + 1"
    by (simp add: algebra_simps)
  then have "rat_of_int (2 * D) < rat_of_int (int n + 1)" by simp
  then have "2 * D < int n + 1" by (simp only: of_int_less_iff)
  then have "2 * D \<le> int n" by simp
  then have "rat_of_int (2 * D) \<le> rat_of_int (int n)" by (simp only: of_int_le_iff)
  then have "\<bar>rat_of_nat k - 100 * q\<bar> * of_nat n \<le> of_nat n / 2"
    by (simp add: D)
  then have "\<bar>rat_of_nat k - 100 * q\<bar> \<le> 1 / 2"
    using n0 by (simp add: field_simps)
  then have near: "\<bar>rat_of_nat k / 100 - q\<bar> \<le> 1 / 200"
    by (simp add: abs_le_iff field_simps)
  have "sql_avg rs = Some a" using rs0 by (simp add: sql_avg_def a_def)
  then have sa: "sql_avg (map rating (ratings_of d cocktailId)) = Some a"
    by (simp only: rs_def)
  have len: "length (ratings_of d cocktailId) = n" by (simp add: n_def rs_def)
  have "average_rating None d cocktailId =
          \<lparr>status = 200,
           payload = Json (JObj [(''averageRating'', JStr (two_decimals k)),
                                 (''ratingCount'', JNum (of_nat n))])\<rparr>"
    using a0 fixed len sa
    by (simp add: average_rating_healthy res_json_def aggregate_json_def
        averageRating_text_def)
  with near show ?thesis
    unfolding q_def len [symmetric] rs_def by blast
qed

theorem average_rating_mean_witness:
  "map rating (ratings_of example_db ''11007'') = [5, 3] \<and>
   (\<exists>k :: nat.
      average_rating None example_db ''11007'' =
        \<lparr>status = 200,
         payload = Json (JObj [(''averageRating'', JStr (two_decimals k)),
                               (''ratingCount'', JNum 2)])\<rparr> \<and>
      \<bar>of_nat k / 100 - mean [5, 3]\<bar> \<le> 1 / 200)"
proof -
  have rs: "ratings_of example_db ''11007'' =
      [\<lparr>cocktail_id = ''11007'', rating = 5, rated_date = 19783\<rparr>,
       \<lparr>cocktail_id = ''11007'', rating = 3, rated_date = 19784\<rparr>]"
    by (simp add: ratings_of_def example_db_def)
  have 1: "ratings_of example_db ''11007'' \<noteq> []"
    and 2: "\<forall>r \<in> set (ratings_of example_db ''11007''). 1 \<le> rating r \<and> rating r \<le> 5"
    and 3: "length (ratings_of example_db ''11007'') \<le> 10 ^ 13"
    by (simp_all add: rs)
  from average_rating_mean [OF 1 2 3] show ?thesis
    by (simp add: rs)
qed

text \<open>
  The example of the rating store: ratings 5 and 3 give 4.00 with count 2. Two means that
  lie halfway: 37 ratings of 1 and 3 of 2 have mean 1.075, the nearest double is below
  it and 1.07 is printed; 7 ratings of 1 and one of 2 have mean 1.125, a double itself,
  and 1.13 is printed.
\<close>

lemma average_rating_example:
  "average_rating None example_db ''11007'' =
     \<lparr>status = 200,
      payload = Json (JObj [(''averageRating'', JStr ''4.00''), (''ratingCount'', JNum 2)])\<rparr>"
  by code_simp

lemma average_rating_halfway_examples:
  "average_rating None
     \<lparr>CocktailRatings =
        replicate 37 \<lparr>cocktail_id = ''11007'', rating = 1, rated_date = 19783\<rparr> @
        replicate 3 \<lparr>cocktail_id = ''11007'', rating = 2, rated_date = 19783\<rparr>,
      Moods = []\<rparr> ''11007'' =
     \<lparr>status = 200,
      payload = Json (JObj [(''averageRating'', JStr ''1.07''), (''ratingCount'', JNum 40)])\<rparr>"
  "average_rating None
     \<lparr>CocktailRatings =
        replicate 7 \<lparr>cocktail_id = ''11007'', rating = 1, rated_date = 19783\<rparr> @
        replicate 1 \<lparr>cocktail_id = ''11007'', rating = 2, rated_date = 19783\<rparr>,
      Moods = []\<rparr> ''11007'' =
     \<lparr>status = 200,
      payload = Json (JObj [(''averageRating'', JStr ''1.13''), (''ratingCount'', JNum 8)])\<rparr>"
  by code_simp+

text \<open>
  Claim C2. For a cocktail with no rating row the route does not fail: it answers 200 with
  the sentinel \<open>Not rated\<close> as \<open>averageRating\<close> and 0 as \<open>ratingCount\<close>.
\<close>

theorem average_rating_no_rows:
  assumes "\<forall>r \<in> set (CocktailRatings d). cocktail_id r \<noteq> cocktailId"
  shows "average_rating None d cocktailId =
           \<lparr>status = 200,
            payload = Json (JObj [(''averageRating'', JStr ''Not rated''),
                                  (''ratingCount'', JNum 0)])\<rparr>"
proof -
  have "ratings_of d cocktailId = []"
    using assms by (simp add: ratings_of_empty_iff)
  then show ?thesis
    by (simp add: average_rating_healthy res_json_def aggregate_json_def
        averageRating_text_def sql_avg_def)
qed

theorem average_rating_no_rows_witness:
  "ratings_of example_db ''17222'' = [] \<and>
   average_rating None example_db ''17222'' =
     \<lparr>status = 200,
      payload = Json (JObj [(''averageRating'', JStr ''Not rated''), (''ratingCount'', JNum 0)])\<rparr>"
proof -
  have "\<forall>r \<in> set (CocktailRatings example_db). cocktail_id r \<noteq> ''17222''"
    by (simp add: example_db_def)
  from average_rating_no_rows [OF this] show ?thesis
    by (simp add: ratings_of_def example_db_def)
qed

text \<open>
  Claim C3, as amended. After a rating submission \<open>(id, rating, date)\<close> that succeeds, the
  average query for that id sees the new row at once: \<open>ratingCount\<close> is one more than
  before, and \<open>averageRating\<close> is the mean of the previous ratings and the new one written
  with two decimals (the numeral printed is within 0.005 of the exact mean, after a minus
  sign for a negative mean), provided this mean is not 0. (For ratings whose absolute
  values sum to at most \<open>4 * 10^13\<close>, in fewer than \<open>10^15\<close> rows, where the sum and the
  count are exact doubles.)
\<close>

theorem submit_rating_then_average:
  assumes "submit_rating fault d req = (resp, d')" and "status resp = 200"
  shows "ratings_of d' (req_id req) =
           ratings_of d (req_id req) @
             [\<lparr>cocktail_id = req_id req, rating = req_rating req, rated_date = req_date req\<rparr>] \<and>
         (\<exists>t0 t1.
            average_rating None d (req_id req) =
              \<lparr>status = 200,
               payload = Json (JObj [(''averageRating'', JStr t0),
                                     (''ratingCount'',
                                      JNum (of_nat (length (ratings_of d (req_id req)))))])\<rparr> \<and>
            average_rating None d' (req_id req) =
              \<lparr>status = 200,
               payload = Json (JObj [(''averageRating'', JStr t1),
                                     (''ratingCount'',
                                      JNum (of_nat (length (ratings_of d (req_id req))) + 1))])\<rparr> \<and>
            (mean (map rating (ratings_of d (req_id req)) @ [req_rating req]) \<noteq> 0 \<and>
             sum_list (map abs (map rating (ratings_of d (req_id req)) @ [req_rating req]))
               \<le> 4 * 10 ^ 13 \<and>
             length (ratings_of d (req_id req)) < 10 ^ 15 \<longrightarrow>
               (\<exists>k :: nat.
                  t1 = (if mean (map rating (ratings_of d (req_id req)) @ [req_rating req]) < 0
                        then ''-'' else '''') @ two_decimals k \<and>
                  \<bar>of_nat k / 100 -
                     \<bar>mean (map rating (ratings_of d (req_id req)) @ [req_rating req])\<bar>\<bar> \<le> 1 / 200)))"
proof -
  define prev where "prev = ratings_of d (req_id req)"
  define rs where "rs = map rating prev @ [req_rating req]"
  have "fault = None"
    using assms
    by (cases fault) (auto simp: submit_rating_def db_run_insert_def res_status_send_def)
  then have d': "d' = d\<lparr>CocktailRatings := CocktailRatings d @
      [\<lparr>cocktail_id = req_id req, rating = req_rating req, rated_date = req_date req\<rparr>]\<rparr>"
    using assms(1) by (simp add: submit_rating_def db_run_insert_def)
  have rows: "ratings_of d' (req_id req) =
           prev @ [\<lparr>cocktail_id = req_id req, rating = req_rating req, rated_date = req_date req\<rparr>]"
    by (simp add: d' ratings_of_def prev_def)
  have before: "average_rating None d (req_id req) =
      \<lparr>status = 200,
       payload = Json (JObj [(''averageRating'',
                               JStr (averageRating_text
                                       (Some \<lparr>avgRating = sql_avg (map rating prev),
                                              ratingCount = length prev\<rparr>))),
                             (''ratingCount'', JNum (of_nat (length prev)))])\<rparr>"
    by (simp add: average_rating_healthy res_json_def aggregate_json_def prev_def)
  have after: "average_rating None d' (req_id req) =
      \<lparr>status = 200,
       payload = Json (JObj [(''averageRating'',
                               JStr (averageRating_text
                                       (Some \<lparr>avgRating = Some (avg_double rs),
                                              ratingCount = length prev + 1\<rparr>))),
                             (''ratingCount'', JNum (of_nat (length prev) + 1))])\<rparr>"
    by (simp add: average_rating_healthy res_json_def aggregate_json_def rows sql_avg_def rs_def)
  have shown: "\<exists>k :: nat.
        averageRating_text (Some \<lparr>avgRating = Some (avg_double rs), ratingCount = length prev + 1\<rparr>) =
          (if mean rs < 0 then ''-'' else '''') @ two_decimals k \<and>
        \<bar>of_nat k / 100 - \<bar>mean rs\<bar>\<bar> \<le> 1 / 200"
    if m: "mean rs \<noteq> 0" and a: "sum_list (map abs rs) \<le> 4 * 10 ^ 13"
      and l: "length prev < 10 ^ 15"
  proof -
    have "\<bar>sum_list rs\<bar> \<le> sum_list (map abs rs)" by (rule sum_list_abs)
    then have s: "\<bar>sum_list rs\<bar> \<le> 4 * 10 ^ 13" using a by (rule order_trans)
    have s0: "sum_list rs \<noteq> 0" using m by (auto simp: mean_def)
    have l': "length rs \<le> 10 ^ 15" using l by (simp add: rs_def)
    from toFixed_avg_double [OF s0 s l'] show ?thesis
      by (simp add: averageRating_text_def)
  qed
  show ?thesis
    unfolding prev_def [symmetric] rs_def [symmetric]
    using rows before after shown by blast
qed

theorem submit_rating_then_average_witness:
  "fst (submit_rating None example_db \<lparr>req_id = ''11007'', req_rating = 5, req_date = 19785\<rparr>) =
     \<lparr>status = 200, payload = Json (JObj [(''message'', JStr ''Rating submitted successfully'')])\<rparr> \<and>
   average_rating None example_db ''11007'' =
     \<lparr>status = 200,
      payload = Json (JObj [(''averageRating'', JStr ''4.00''), (''ratingCount'', JNum 2)])\<rparr> \<and>
   average_rating None
     (snd (submit_rating None example_db \<lparr>req_id = ''11007'', req_rating = 5, req_date = 19785\<rparr>))
     ''11007'' =
     \<lparr>status = 200,
      payload = Json (JObj [(''averageRating'', JStr ''4.33''), (''ratingCount'', JNum 3)])\<rparr> \<and>
   (\<exists>k :: nat. ''4.33'' = two_decimals k \<and> \<bar>of_nat k / 100 - \<bar>mean [5, 3, 5]\<bar>\<bar> \<le> 1 / 200)"
proof -
  let ?req = "\<lparr>req_id = ''11007'', req_rating = 5, req_date = 19785\<rparr>"
  let ?d' = "snd (submit_rating None example_db ?req)"
  have r: "fst (submit_rating None example_db ?req) =
     \<lparr>status = 200, payload = Json (JObj [(''message'', JStr ''Rating submitted successfully'')])\<rparr>"
    by (simp add: submit_rating_def db_run_insert_def res_json_def)
  then have s: "status (fst (submit_rating None example_db ?req)) = 200" by simp
  have b: "average_rating None example_db ''11007'' =
     \<lparr>status = 200,
      payload = Json (JObj [(''averageRating'', JStr ''4.00''), (''ratingCount'', JNum 2)])\<rparr>"
    by code_simp
  have a: "average_rating None ?d' ''11007'' =
     \<lparr>status = 200,
      payload = Json (JObj [(''averageRating'', JStr ''4.33''), (''ratingCount'', JNum 3)])\<rparr>"
    by code_simp
  have rs: "map rating (ratings_of example_db ''11007'') = [5, 3]"
    and len: "length (ratings_of example_db ''11007'') = 2"
    by (simp_all add: ratings_of_def example_db_def)
  have m: "mean [5, 3, 5] \<noteq> 0" by (simp add: mean_def)
  have "\<exists>t1. average_rating None ?d' ''11007'' =
       \<lparr>status = 200,
        payload = Json (JObj [(''averageRating'', JStr t1), (''ratingCount'', JNum 3)])\<rparr> \<and>
       (mean [5, 3, 5] \<noteq> 0 \<longrightarrow>
         (\<exists>k :: nat. t1 = (if mean [5, 3, 5] < 0 then ''-'' else '''') @ two_decimals k \<and>
            \<bar>of_nat k / 100 - \<bar>mean [5, 3, 5]\<bar>\<bar> \<le> 1 / 200))"
    using submit_rating_then_average
      [of None example_db ?req "fst (submit_rating None example_db ?req)" ?d', OF _ s]
    by (simp add: rs len)
  then obtain t1 where
    "average_rating None ?d' ''11007'' =
       \<lparr>status = 200,
        payload = Json (JObj [(''averageRating'', JStr t1), (''ratingCount'', JNum 3)])\<rparr>"
    and k: "\<exists>k :: nat. t1 = (if mean [5, 3, 5] < 0 then ''-'' else '''') @ two_decimals k \<and>
            \<bar>of_nat k / 100 - \<bar>mean [5, 3, 5]\<bar>\<bar> \<le> 1 / 200"
    using m by blast
  with a have "t1 = ''4.33''" by simp
  moreover have "\<not> mean [5, 3, 5] < 0" by (simp add: mean_def)
  ultimately have "\<exists>k :: nat. ''4.33'' = two_decimals k \<and>
      \<bar>of_nat k / 100 - \<bar>mean [5, 3, 5]\<bar>\<bar> \<le> 1 / 200"
    using k by simp
  with r b a show ?thesis by blast
qed

text \<open>
  The claim as it was stated fails where the mean is 0, which unchecked ratings allow: a
  cocktail rated 1 is rated -1; the submission succeeds, the count becomes 2, and the
  average reported is the sentinel \<open>Not rated\<close>, not the mean 0 of the two rows.
\<close>

theorem submit_rating_zero_mean_not_rated:
  "fst (submit_rating None
          \<lparr>CocktailRatings = [\<lparr>cocktail_id = ''11007'', rating = 1, rated_date = 19783\<rparr>], Moods = []\<rparr>
          \<lparr>req_id = ''11007'', req_rating = - 1, req_date = 19784\<rparr>) =
     \<lparr>status = 200, payload = Json (JObj [(''message'', JStr ''Rating submitted successfully'')])\<rparr> \<and>
   average_rating None
     (snd (submit_rating None
          \<lparr>CocktailRatings = [\<lparr>cocktail_id = ''11007'', rating = 1, rated_date = 19783\<rparr>], Moods = []\<rparr>
          \<lparr>req_id = ''11007'', req_rating = - 1, req_date = 19784\<rparr>)) ''11007'' =
     \<lparr>status = 200,
      payload = Json (JObj [(''averageRating'', JStr ''Not rated''), (''ratingCount'', JNum 2)])\<rparr> \<and>
   mean [1, - 1] = 0 \<and> two_decimals 0 = ''0.00''"
  by code_simp

text \<open>
  Claim C6. The answer for a cocktail id depends only on the rating rows of that id: two
  stores holding the same rows for the id (as bags; the rows of other ids may differ in
  any way) get the same answer.
\<close>

theorem average_rating_own_rows_only:
  assumes "mset (ratings_of d1 cocktailId) = mset (ratings_of d2 cocktailId)"
  shows "average_rating fault d1 cocktailId = average_rating fault d2 cocktailId"
proof -
  let ?r1 = "map rating (ratings_of d1 cocktailId)"
  let ?r2 = "map rating (ratings_of d2 cocktailId)"
  have m: "mset ?r1 = mset ?r2"
    using assms by simp
  have len: "length (ratings_of d1 cocktailId) = length (ratings_of d2 cocktailId)"
    using assms by (rule mset_eq_length)
  have "sum_list ?r1 = sum_list ?r2"
    using m by (metis sum_mset_sum_list)
  moreover have "length ?r1 = length ?r2" using len by simp
  moreover have "?r1 = [] \<longleftrightarrow> ?r2 = []" using len by auto
  ultimately have "sql_avg ?r1 = sql_avg ?r2"
    unfolding sql_avg_def avg_double_def by presburger
  then show ?thesis
    using len by (simp add: average_rating_def average_rating_query_def Let_def)
qed

theorem average_rating_own_rows_only_witness:
  "ratings_of example_db ''11007'' =
     ratings_of (example_db\<lparr>CocktailRatings :=
        \<lparr>cocktail_id = ''11000'', rating = 1, rated_date = 19790\<rparr> # CocktailRatings example_db\<rparr>)
       ''11007'' \<and>
   average_rating None example_db ''11007'' =
     average_rating None (example_db\<lparr>CocktailRatings :=
        \<lparr>cocktail_id = ''11000'', rating = 1, rated_date = 19790\<rparr> # CocktailRatings example_db\<rparr>)
       ''11007''"
proof -
  let ?d2 = "example_db\<lparr>CocktailRatings :=
        \<lparr>cocktail_id = ''11000'', rating = 1, rated_date = 19790\<rparr> # CocktailRatings example_db\<rparr>"
  have e: "ratings_of example_db ''11007'' = ratings_of ?d2 ''11007''"
    by (simp add: ratings_of_def)
  then have "mset (ratings_of example_db ''11007'') = mset (ratings_of ?d2 ''11007'')"
    by (simp only:)
  from average_rating_own_rows_only [OF this, of None] e show ?thesis
    by (rule_tac conjI)
qed

text \<open>
  Claim C10. Rating bounds are not checked on submission. For a cocktail whose rating rows
  are not empty but have mean exactly 0 (all ratings 0, say), the route answers with the
  sentinel \<open>Not rated\<close> as \<open>averageRating\<close> next to the positive row count: the number 0
  is falsy, as NULL is.
\<close>

theorem average_rating_zero_mean:
  assumes "ratings_of d cocktailId \<noteq> []"
    and "mean (map rating (ratings_of d cocktailId)) = 0"
  shows "average_rating None d cocktailId =
           \<lparr>status = 200,
            payload = Json (JObj [(''averageRating'', JStr ''Not rated''),
                                  (''ratingCount'',
                                   JNum (of_nat (length (ratings_of d cocktailId))))])\<rparr> \<and>
         0 < length (ratings_of d cocktailId)"
proof -
  have "sum_list (map rating (ratings_of d cocktailId)) = 0"
    using assms by (simp add: mean_def)
  then have "avg_double (map rating (ratings_of d cocktailId)) = 0"
    by (simp add: avg_double_def to_double_def)
  then show ?thesis
    using assms(1)
    by (simp add: average_rating_healthy res_json_def aggregate_json_def
        averageRating_text_def sql_avg_def)
qed

theorem average_rating_zero_mean_witness:
  "fst (submit_rating None example_db \<lparr>req_id = ''17222'', req_rating = 0, req_date = 19785\<rparr>) =
     \<lparr>status = 200, payload = Json (JObj [(''message'', JStr ''Rating submitted successfully'')])\<rparr> \<and>
   average_rating None
     (snd (submit_rating None example_db \<lparr>req_id = ''17222'', req_rating = 0, req_date = 19785\<rparr>))
     ''17222'' =
     \<lparr>status = 200,
      payload = Json (JObj [(''averageRating'', JStr ''Not rated''), (''ratingCount'', JNum 1)])\<rparr>"
proof -
  let ?d = "example_db\<lparr>CocktailRatings := CocktailRatings example_db @
      [\<lparr>cocktail_id = ''17222'', rating = 0, rated_date = 19785\<rparr>]\<rparr>"
  have d: "snd (submit_rating None example_db
      \<lparr>req_id = ''17222'', req_rating = 0, req_date = 19785\<rparr>) = ?d"
    by (simp add: submit_rating_def db_run_insert_def)
  have rs: "ratings_of ?d ''17222'' =
      [\<lparr>cocktail_id = ''17222'', rating = 0, rated_date = 19785\<rparr>]"
    by (simp add: ratings_of_def example_db_def)
  have 1: "ratings_of ?d ''17222'' \<noteq> []" and 2: "mean (map rating (ratings_of ?d ''17222'')) = 0"
    by (simp_all only: rs) (simp_all add: mean_def)
  have "average_rating None ?d ''17222'' =
     \<lparr>status = 200,
      payload = Json (JObj [(''averageRating'', JStr ''Not rated''), (''ratingCount'', JNum 1)])\<rparr>"
    using average_rating_zero_mean [OF 1 2] by (simp only: rs) simp
  then show ?thesis
    unfolding d by (simp add: submit_rating_def db_run_insert_def res_json_def)
qed

section \<open>The recipe routes\<close>







text \<open>
  Replies whose \<open>drinks\<close> is an object, and one whose first drink is a number beyond the
  range of doubles, which \<^verbatim>\<open>res.json\<close> writes as null.
\<close>

lemma hydrate_object_examples:
  "hydrate (Parsed (JObj [(''drinks'', JObj [(''length'', JNum 1), (''0'', JStr ''x'')])])) =
     \<lparr>status = 200, payload = Json (JStr ''x'')\<rparr>"
  "hydrate (Parsed (JObj [(''drinks'', JObj [(''length'', JStr ''2'')])])) =
     \<lparr>status = 200, payload = Empty\<rparr>"
  "hydrate (Parsed (JObj [(''drinks'', JObj [(''length'', JArr [JNum 1, JNum 2])])])) =
     \<lparr>status = 404, payload = Text ''Cocktail not found''\<rparr>"
  "hydrate (Parsed (JObj [(''drinks'', JObj [(''length'', JObj [(''toString'', JNull)])])])) =
     \<lparr>status = 500, payload = Text ''Error fetching from the API''\<rparr>"
  "hydrate (Parsed (JObj [(''drinks'', JArr [JInf True])])) = \<lparr>status = 200, payload = Json JNull\<rparr>"
  by code_simp+

text \<open>
  Claim C9. A mood whose matching entries all name one cocktail id (exactly one matching
  entry, in particular) always resolves to that id, whatever the random draws; the match
  is exact and case-sensitive. A mood with no matching entry resolves to nothing, which
  the route reports as 404 with a message, not as an error.
\<close>

theorem cocktail_by_mood_resolves:
  "(filter (\<lambda>m. Mood m = mood) (Moods d) \<noteq> [] \<and>
      (\<forall>m \<in> set (Moods d). Mood m = mood \<longrightarrow> ID m = i) \<longrightarrow>
        moods_query random d mood = Some i \<and>
        cocktail_by_mood None random api d mood = hydrate (api (lookup_url i))) \<and>
   (filter (\<lambda>m. Mood m = mood) (Moods d) = [] \<longrightarrow>
        moods_query random d mood = None \<and>
        cocktail_by_mood None random api d mood =
          \<lparr>status = 404, payload = Text ''No cocktails found for this mood''\<rparr>)"
proof (intro conjI impI)
  assume a: "filter (\<lambda>m. Mood m = mood) (Moods d) \<noteq> [] \<and>
      (\<forall>m \<in> set (Moods d). Mood m = mood \<longrightarrow> ID m = i)"
  then have "moods_query random d mood \<noteq> None"
    by (simp add: moods_query_None_iff)
  then obtain j where j: "moods_query random d mood = Some j" by blast
  from moods_query_member [OF j] a have "j = i" by blast
  with j show q: "moods_query random d mood = Some i" by simp
  then show "cocktail_by_mood None random api d mood = hydrate (api (lookup_url i))"
    by (simp add: cocktail_by_mood_def db_get_def)
next
  assume "filter (\<lambda>m. Mood m = mood) (Moods d) = []"
  then show q: "moods_query random d mood = None"
    by (simp add: moods_query_None_iff)
  then show "cocktail_by_mood None random api d mood =
          \<lparr>status = 404, payload = Text ''No cocktails found for this mood''\<rparr>"
    by (simp add: cocktail_by_mood_def db_get_def res_status_send_def)
qed

theorem cocktail_by_mood_resolves_witness:
  "filter (\<lambda>m. Mood m = ''happy'') (Moods example_db) = [\<lparr>ID = ''11007'', Mood = ''happy''\<rparr>] \<and>
   moods_query int example_db ''happy'' = Some ''11007'' \<and>
   cocktail_by_mood None int example_api example_db ''happy'' =
     hydrate (example_api (lookup_url ''11007'')) \<and>
   filter (\<lambda>m. Mood m = ''Happy'') (Moods example_db) = [] \<and>
   cocktail_by_mood None int example_api example_db ''Happy'' =
     \<lparr>status = 404, payload = Text ''No cocktails found for this mood''\<rparr>"
proof -
  have 1: "filter (\<lambda>m. Mood m = ''happy'') (Moods example_db) =
      [\<lparr>ID = ''11007'', Mood = ''happy''\<rparr>]"
    and 2: "\<forall>m \<in> set (Moods example_db). Mood m = ''happy'' \<longrightarrow> ID m = ''11007''"
    and 3: "filter (\<lambda>m. Mood m = ''Happy'') (Moods example_db) = []"
    by (simp_all add: example_db_def)
  from cocktail_by_mood_resolves [of "''happy''" example_db "''11007''" int example_api]
    cocktail_by_mood_resolves [of "''Happy''" example_db "''11007''" int example_api] 1 2 3
  show ?thesis by simp
qed

section \<open>Top rated of the month\<close>

text \<open>
  Claim C4. In a year of four digits, if the store holds a rating dated in the month of
  \<open>now\<close>, the query of the top-rated route returns a cocktail. Whatever cocktail the query
  returns has a rating dated in that month, its average is taken over its ratings of that
  month only, and no cocktail rated in that month has a greater average. The averages
  compared are the doubles of \<^verbatim>\<open>AVG\<close>; for ratings from 1 to 5 (up to \<open>10^7\<close> rows) the
  exact means are ordered the same way. The route then fetches the recipe of that
  cocktail. If no rating is dated in that month, the query returns nothing and the route
  answers 404.
\<close>

theorem top_rated_cocktail_in_month:
  "(1000 \<le> getFullYear tza now \<and> getFullYear tza now \<le> 9999 \<and>
    (\<exists>r \<in> set (CocktailRatings d). in_month (getFullYear tza now) (getMonth tza now) r) \<longrightarrow>
      (\<exists>c a. top_rated_query tie d (padStart 2 (show_int (getMonth tza now + 1)))
                (show_int (getFullYear tza now)) = Some (c, a))) \<and>
   (\<forall>c a. top_rated_query tie d (padStart 2 (show_int (getMonth tza now + 1)))
             (show_int (getFullYear tza now)) = Some (c, a) \<longrightarrow>
      month_ratings d (getFullYear tza now) (getMonth tza now) c \<noteq> [] \<and>
      a = avg_double (month_ratings d (getFullYear tza now) (getMonth tza now) c) \<and>
      (\<forall>c'. month_ratings d (getFullYear tza now) (getMonth tza now) c' \<noteq> [] \<longrightarrow>
         avg_double (month_ratings d (getFullYear tza now) (getMonth tza now) c') \<le> a) \<and>
      ((\<forall>r \<in> set (CocktailRatings d).
          in_month (getFullYear tza now) (getMonth tza now) r \<longrightarrow>
            1 \<le> rating r \<and> rating r \<le> 5) \<and>
       length (CocktailRatings d) \<le> 10 ^ 7 \<longrightarrow>
         (\<forall>c'. month_ratings d (getFullYear tza now) (getMonth tza now) c' \<noteq> [] \<longrightarrow>
            mean (month_ratings d (getFullYear tza now) (getMonth tza now) c') \<le>
            mean (month_ratings d (getFullYear tza now) (getMonth tza now) c))) \<and>
      top_rated_cocktail None tie api tza now d = hydrate (api (lookup_url c))) \<and>
   ((\<forall>r \<in> set (CocktailRatings d). \<not> in_month (getFullYear tza now) (getMonth tza now) r) \<longrightarrow>
      top_rated_query tie d (padStart 2 (show_int (getMonth tza now + 1)))
        (show_int (getFullYear tza now)) = None \<and>
      top_rated_cocktail None tie api tza now d =
        \<lparr>status = 404, payload = Text ''No top-rated cocktails found for the current month''\<rparr>)"
proof -
  define Y where "Y = getFullYear tza now"
  define M where "M = getMonth tza now"
  define p1 where "p1 = padStart 2 (show_int (M + 1))"
  define p2 where "p2 = show_int Y"
  define rows where "rows = filter (in_period p1 p2) (CocktailRatings d)"
  have sound: "in_month Y M r" if "in_period p1 p2 r" for r
    using that in_period_sound [of tza now r] by (simp add: p1_def p2_def M_def Y_def)
  have selected:
    "month_ratings d Y M c \<noteq> [] \<and>
     a = avg_double (month_ratings d Y M c) \<and>
     (\<forall>c'. month_ratings d Y M c' \<noteq> [] \<longrightarrow> avg_double (month_ratings d Y M c') \<le> a) \<and>
     ((\<forall>r \<in> set (CocktailRatings d). in_month Y M r \<longrightarrow> 1 \<le> rating r \<and> rating r \<le> 5) \<and>
      length (CocktailRatings d) \<le> 10 ^ 7 \<longrightarrow>
        (\<forall>c'. month_ratings d Y M c' \<noteq> [] \<longrightarrow>
           mean (month_ratings d Y M c') \<le> mean (month_ratings d Y M c))) \<and>
     top_rated_cocktail None tie api tza now d = hydrate (api (lookup_url c))"
    if q: "top_rated_query tie d p1 p2 = Some (c, a)" for c a
  proof -
    note top = top_rated_query_Some [OF q, folded rows_def]
    from top(1) obtain r0 where r0: "r0 \<in> set (CocktailRatings d)" "in_period p1 p2 r0"
      and c: "cocktail_id r0 = c"
      by (auto simp: rows_def)
    have complete: "in_period p1 p2 r" if "in_month Y M r" for r
      using that sound [OF r0(2)] in_period_complete [OF r0(2), of r] by (simp add: in_month_def)
    have p: "in_period p1 p2 = in_month Y M"
      using sound complete by blast
    have g: "map rating (filter (\<lambda>r. cocktail_id r = c') rows) = month_ratings d Y M c'" for c'
      by (simp add: rows_def p month_ratings_def conj_commute)
    then have ga: "group_avg rows c' = avg_double (month_ratings d Y M c')" for c'
      by (simp add: group_avg_def)
    have ids: "c' \<in> cocktail_id ` set rows \<longleftrightarrow> month_ratings d Y M c' \<noteq> []" for c'
      by (auto simp: rows_def p month_ratings_def filter_empty_conv)
    have 1: "month_ratings d Y M c \<noteq> []" using top(1) ids by simp
    have 2: "a = avg_double (month_ratings d Y M c)" using top(2) ga by simp
    have 3: "\<forall>c'. month_ratings d Y M c' \<noteq> [] \<longrightarrow> avg_double (month_ratings d Y M c') \<le> a"
    proof (intro allI impI)
      fix c' assume "month_ratings d Y M c' \<noteq> []"
      then have "c' \<in> cocktail_id ` set rows" using ids [of c'] by blast
      with top(3) have "group_avg rows c' \<le> a" by blast
      then show "avg_double (month_ratings d Y M c') \<le> a" by (simp only: ga)
    qed
    have 4: "\<forall>c'. month_ratings d Y M c' \<noteq> [] \<longrightarrow>
                mean (month_ratings d Y M c') \<le> mean (month_ratings d Y M c)"
      if b: "\<forall>r \<in> set (CocktailRatings d). in_month Y M r \<longrightarrow> 1 \<le> rating r \<and> rating r \<le> 5"
        and l: "length (CocktailRatings d) \<le> 10 ^ 7"
    proof (intro allI impI)
      fix c' assume ne: "month_ratings d Y M c' \<noteq> []"
      then have "avg_double (month_ratings d Y M c') \<le> avg_double (month_ratings d Y M c)"
        using 3 2 by simp
      with 1 ne month_ratings_bounds [OF b l]
      show "mean (month_ratings d Y M c') \<le> mean (month_ratings d Y M c)"
        by (intro avg_double_le_imp_mean_le) simp_all
    qed
    have 5: "top_rated_cocktail None tie api tza now d = hydrate (api (lookup_url c))"
      using q by (simp add: top_rated_cocktail_def Let_def db_get_def p1_def p2_def M_def Y_def)
    show ?thesis
      using 1 2 3 4 5 by blast
  qed
  have some: "\<exists>c a. top_rated_query tie d p1 p2 = Some (c, a)"
    if y: "1000 \<le> Y" "Y \<le> 9999" and r: "r \<in> set (CocktailRatings d)" "in_month Y M r" for r
  proof -
    have "in_period p1 p2 r"
      using in_month_imp_in_period [of tza now r] y r(2)
      by (simp add: p1_def p2_def M_def Y_def)
    with r(1) have "filter (in_period p1 p2) (CocktailRatings d) \<noteq> []"
      by (auto simp: filter_empty_conv)
    then have "top_rated_query tie d p1 p2 \<noteq> None"
      by (simp add: top_rated_query_None_iff)
    then show ?thesis by auto
  qed
  have none: "top_rated_query tie d p1 p2 = None \<and>
      top_rated_cocktail None tie api tza now d =
        \<lparr>status = 404, payload = Text ''No top-rated cocktails found for the current month''\<rparr>"
    if n: "\<forall>r \<in> set (CocktailRatings d). \<not> in_month Y M r"
  proof -
    have "filter (in_period p1 p2) (CocktailRatings d) = []"
      using n sound by (auto simp: filter_empty_conv)
    then have q: "top_rated_query tie d p1 p2 = None"
      by (simp add: top_rated_query_None_iff)
    then have "top_rated_cocktail None tie api tza now d =
        \<lparr>status = 404, payload = Text ''No top-rated cocktails found for the current month''\<rparr>"
      by (simp add: top_rated_cocktail_def Let_def db_get_def res_status_send_def
          p1_def p2_def M_def Y_def)
    with q show ?thesis by simp
  qed
  show ?thesis
    unfolding Y_def [symmetric] M_def [symmetric] p1_def [symmetric] p2_def [symmetric]
    using selected some none by blast
qed

theorem top_rated_cocktail_in_month_witness:
  "getFullYear (fixed_zone 0) 1709424000000 = 2024 \<and> getMonth (fixed_zone 0) 1709424000000 = 2 \<and>
   (\<exists>r \<in> set (CocktailRatings march_db). in_month 2024 2 r) \<and>
   (\<exists>c a. top_rated_query length march_db ''03'' ''2024'' = Some (c, a)) \<and>
   top_rated_query length march_db ''03'' ''2024'' = Some (''11000'', 9 / 2) \<and>
   month_ratings march_db 2024 2 ''11000'' = [4, 5] \<and>
   month_ratings march_db 2024 2 ''11007'' = [5, 3] \<and>
   month_ratings march_db 2024 2 ''17222'' = [] \<and>
   avg_double [5, 3] \<le> 9 / 2 \<and>
   mean [5, 3] \<le> mean [4, 5] \<and>
   top_rated_cocktail None length example_api (fixed_zone 0) 1709424000000 march_db =
     hydrate (example_api (lookup_url ''11000'')) \<and>
   filter (in_month 2024 2) (CocktailRatings week_db) = [] \<and>
   top_rated_cocktail None length example_api (fixed_zone 0) 1709424000000 week_db =
     \<lparr>status = 404, payload = Text ''No top-rated cocktails found for the current month''\<rparr>"
proof -
  let ?z = "fixed_zone 0"
  let ?now = "1709424000000 :: int"
  have y: "getFullYear ?z ?now = 2024" and m: "getMonth ?z ?now = 2"
    by code_simp+
  have p: "padStart 2 (show_int (2 + 1)) = ''03''" "show_int 2024 = ''2024''"
    by code_simp+
  have h: "top_rated_query length march_db ''03'' ''2024'' = Some (''11000'', 9 / 2)"
    by code_simp
  have r: "month_ratings march_db 2024 2 ''11000'' = [4, 5]"
    "month_ratings march_db 2024 2 ''11007'' = [5, 3]"
    "month_ratings march_db 2024 2 ''17222'' = []"
    by code_simp+
  have b: "\<forall>r \<in> set (CocktailRatings march_db). in_month 2024 2 r \<longrightarrow> 1 \<le> rating r \<and> rating r \<le> 5"
    and l: "length (CocktailRatings march_db) \<le> 10 ^ 7"
    by (simp_all add: march_db_def)
  have e: "\<exists>r \<in> set (CocktailRatings march_db). in_month 2024 2 r"
    by code_simp
  have f: "filter (in_month 2024 2) (CocktailRatings week_db) = []"
    by code_simp
  then have n: "\<forall>r \<in> set (CocktailRatings week_db). \<not> in_month 2024 2 r"
    by (simp add: filter_empty_conv)
  have yr: "(1000 :: int) \<le> 2024 \<and> (2024 :: int) \<le> 9999 \<and>
      (\<exists>r \<in> set (CocktailRatings march_db). in_month 2024 2 r)"
    using e by simp
  note t = top_rated_cocktail_in_month [of ?z ?now march_db length example_api, unfolded y m p]
  note x = t [THEN conjunct1, THEN mp, OF yr]
  note s = t [THEN conjunct2, THEN conjunct1, THEN spec, THEN spec, THEN mp, OF h]
  note t' = top_rated_cocktail_in_month [of ?z ?now week_db length example_api, unfolded y m p]
  note z = t' [THEN conjunct2, THEN conjunct2, THEN mp, OF n, THEN conjunct2]
  have ne: "month_ratings march_db 2024 2 ''11007'' \<noteq> []"
    by (simp add: r)
  from s b l ne have
    "avg_double (month_ratings march_db 2024 2 ''11007'') \<le> 9 / 2 \<and>
     mean (month_ratings march_db 2024 2 ''11007'') \<le> mean (month_ratings march_db 2024 2 ''11000'') \<and>
     top_rated_cocktail None length example_api ?z ?now march_db =
       hydrate (example_api (lookup_url ''11000''))"
    by blast
  then show ?thesis
    using y m e x h r f z by simp
qed

section \<open>Top rated of the week\<close>

text \<open>
  In the local days of a server whose zone has a fixed offset, \<open>firstDayOfWeek\<close> is the
  Monday on or before today, six days back on a Sunday, and \<open>lastDayOfWeek\<close> the Sunday
  six days later.
\<close>

lemma week_local_days:
  fixes off now :: int
  defines "z \<equiv> fixed_zone off"
  shows "getDay z (firstDayOfWeek z now) = 1 \<and>
   Day (LocalTime z (firstDayOfWeek z now)) = Day (LocalTime z now) - (getDay z now + 6) mod 7 \<and>
   (getDay z now = 0 \<longrightarrow> Day (LocalTime z (firstDayOfWeek z now)) = Day (LocalTime z now) - 6) \<and>
   Day (LocalTime z (lastDayOfWeek z now)) = Day (LocalTime z (firstDayOfWeek z now)) + 6 \<and>
   getDay z (lastDayOfWeek z now) = 0"
proof -
  define D where "D = Day (LocalTime z now)"
  define k where "k = - getDay z now + (if getDay z now = 0 then - 6 else 1)"
  have gw: "getDay z now = (D + 4) mod 7"
    by (simp add: D_def getDay_def WeekDay_def)
  have "getDate z now - getDay z now + (if getDay z now = 0 then - 6 else 1) =
          getDate z now + k"
    by (simp add: k_def)
  then have "firstDayOfWeek z now = setDate z now (getDate z now + k)"
    by (simp only: firstDayOfWeek_def)
  then have first: "Day (LocalTime z (firstDayOfWeek z now)) = D + k"
    by (simp add: setDate_shift D_def z_def)
  have last: "Day (LocalTime z (lastDayOfWeek z now)) = D + k + 6"
    using first by (simp add: lastDayOfWeek_def Let_def setDate_shift z_def)
  have g1: "getDay z (firstDayOfWeek z now) = (D + k + 4) mod 7"
    by (simp add: getDay_def WeekDay_def first)
  have g2: "getDay z (lastDayOfWeek z now) = (D + k + 6 + 4) mod 7"
    by (simp add: getDay_def WeekDay_def last)
  have k': "k = - ((D + 4) mod 7) + (if (D + 4) mod 7 = 0 then - 6 else 1)"
    by (simp add: k_def gw)
  have k: "k = - (((D + 4) mod 7 + 6) mod 7)"
    unfolding k' by (rule week_offset(1))
  have m1: "(D + k + 4) mod 7 = 1"
    unfolding k' by (rule week_offset(2))
  have m2: "(D + k + 6 + 4) mod 7 = 0"
    unfolding k' by (rule week_offset(3))
  have s: "(D + 4) mod 7 = 0 \<longrightarrow> D + k = D - 6"
    by (simp add: k')
  show ?thesis
    unfolding g1 g2 first last gw D_def [symmetric] m1 m2 using k s by simp
qed

text \<open>
  On a server in UTC the two dates handed to the query are that Monday and that Sunday,
  and today lies between them.
\<close>

lemma week_period_utc:
  "WeekDay (toISOString_date (firstDayOfWeek (fixed_zone 0) now)) = 1 \<and>
   toISOString_date (lastDayOfWeek (fixed_zone 0) now) =
     toISOString_date (firstDayOfWeek (fixed_zone 0) now) + 6 \<and>
   toISOString_date (firstDayOfWeek (fixed_zone 0) now) \<le> Day now \<and>
   Day now \<le> toISOString_date (lastDayOfWeek (fixed_zone 0) now)"
proof -
  have l: "LocalTime (fixed_zone 0) t = t" for t
    by (simp add: LocalTime_def fixed_zone_def)
  note w = week_local_days [of 0 now, unfolded l getDay_def]
  define m where "m = (WeekDay (Day now) + 6) mod 7"
  have m: "0 \<le> m" "m \<le> 6" by (simp_all add: m_def)
  from w have g: "WeekDay (Day (firstDayOfWeek (fixed_zone 0) now)) = 1"
    and f: "Day (firstDayOfWeek (fixed_zone 0) now) = Day now - m"
    and e: "Day (lastDayOfWeek (fixed_zone 0) now) = Day (firstDayOfWeek (fixed_zone 0) now) + 6"
    unfolding m_def by blast+
  show ?thesis
    unfolding toISOString_date_def using g e f m by simp
qed

text \<open>
  Across a change of the offset \<^verbatim>\<open>setDate\<close> keeps the local time of day: on Sunday
  2024-03-31, 13:00 in Central Europe (11:00 UTC), the first day of the week is Monday
  2024-03-25, 13:00 local time, which was 12:00 UTC.
\<close>

lemma setDate_resolves_offset:
  "firstDayOfWeek central_european_2024 1711882800000 = 1711368000000"
  by code_simp

text \<open>
  Claim C5. The week is to start on Monday and to span Monday through Sunday. The period
  handed to the query does not, on a server that is not in UTC: the two instants are
  computed in local time and then written as dates of UTC. On a server seven hours behind
  UTC, on Thursday 2020-12-31 at 20:00 local time (2021-01-01, 03:00 UTC), the period is
  Tuesday 2020-12-29 (day 18625) to Monday 2021-01-04 (day 18631): a rating of Monday
  2020-12-28 is left out, and the route answers 404 for a store that holds it alone; a
  rating of Monday 2021-01-04, of the week after, is counted.
\<close>

theorem week_period_not_monday_to_sunday:
  "getDay (fixed_zone (- 25200000)) 1609470000000 = 4 \<and>
   toISOString_date (firstDayOfWeek (fixed_zone (- 25200000)) 1609470000000) = 18625 \<and>
   WeekDay 18625 = 2 \<and>
   toISOString_date (lastDayOfWeek (fixed_zone (- 25200000)) 1609470000000) = 18631 \<and>
   WeekDay 18631 = 1 \<and>
   top_rated_cocktail_week None length example_api (fixed_zone (- 25200000)) 1609470000000 week_db =
     \<lparr>status = 404, payload = Text ''No top-rated cocktails found for the current week''\<rparr> \<and>
   top_rated_week_query length next_week_db
     (toISOString_date (firstDayOfWeek (fixed_zone (- 25200000)) 1609470000000))
     (toISOString_date (lastDayOfWeek (fixed_zone (- 25200000)) 1609470000000)) =
     Some (''11000'', 4)"
  by code_simp

text \<open>
  On a server one hour ahead of UTC, on Sunday 2024-03-03 at 00:30 local time, the period
  runs from a Sunday to a Saturday.
\<close>

lemma week_period_sunday_to_saturday:
  "getDay (fixed_zone 3600000) 1709422200000 = 0 \<and>
   WeekDay (toISOString_date (firstDayOfWeek (fixed_zone 3600000) 1709422200000)) = 0 \<and>
   WeekDay (toISOString_date (lastDayOfWeek (fixed_zone 3600000) 1709422200000)) = 6"
  by code_simp

end
